theory Spec2Isabelle
  imports Main
begin

section \<open>JavaScript string operations used by the router\<close>

text \<open>
  Strings are lists of characters. Each helper below is the JavaScript string method of
  the same name, restricted to the way the repository calls it.
\<close>

text \<open>\<^verbatim>\<open>s.startsWith(p)\<close>\<close>

definition startsWith :: "string \<Rightarrow> string \<Rightarrow> bool" where
  "startsWith s p = (take (length p) s = p)"

text \<open>\<^verbatim>\<open>s.endsWith(p)\<close>\<close>

definition endsWith :: "string \<Rightarrow> string \<Rightarrow> bool" where
  "endsWith s p = (length p \<le> length s \<and> drop (length s - length p) s = p)"

text \<open>\<^verbatim>\<open>s.includes(c)\<close> for a one-character needle.\<close>

definition includes_str :: "string \<Rightarrow> char \<Rightarrow> bool" where
  "includes_str s c = (c \<in> set s)"

text \<open>
  \<^verbatim>\<open>s.split('/')\<close>: the pieces between the separators, empty pieces included, so
  the result always has one more element than \<open>s\<close> has separators (\<^verbatim>\<open>''.split('/')\<close> is
  \<^verbatim>\<open>['']\<close>).
\<close>

fun split :: "char \<Rightarrow> string \<Rightarrow> string list" where
  "split sep [] = [[]]"
| "split sep (c # cs) =
     (if c = sep then [] # split sep cs
      else (case split sep cs of
              [] \<Rightarrow> [[c]]
            | p # ps \<Rightarrow> (c # p) # ps))"

text \<open>\<^verbatim>\<open>s.slice(0, -n)\<close>: drop the last \<open>n\<close> characters.\<close>

definition slice_end :: "nat \<Rightarrow> string \<Rightarrow> string" where
  "slice_end n s = take (length s - n) s"

text \<open>\<^verbatim>\<open>s.slice(1, -1)\<close>: drop the first and the last character.\<close>

definition slice_inner :: "string \<Rightarrow> string" where
  "slice_inner s = take (length s - 2) (drop 1 s)"

text \<open>\<^verbatim>\<open>s.replace(/\/\*$/, '')\<close>: remove one trailing \<^verbatim>\<open>/*\<close> when there is one.\<close>

definition stripWildcard :: "string \<Rightarrow> string" where
  "stripWildcard s = (if endsWith s ''/*'' then slice_end 2 s else s)"

text \<open>\<^verbatim>\<open>parts.filter(Boolean)\<close> on strings: keep the non-empty ones.\<close>

definition filterBoolean :: "string list \<Rightarrow> string list" where
  "filterBoolean ps = filter (\<lambda>p. p \<noteq> []) ps"


section \<open>Priority and path matching (utils/priority)\<close>

text \<open>
  \<^verbatim>\<open>calculatePriority(path, isExact)\<close>. Priorities are small integral JavaScript
  numbers; \<open>100 - s\<close> goes negative for more than a hundred segments, hence \<open>int\<close>.
\<close>

definition calculatePriority :: "string \<Rightarrow> bool \<Rightarrow> int" where
  "calculatePriority path isExact =
     (if isExact then int (length (split CHR ''/'' path)) * 10
      else (let segments = filterBoolean (split CHR ''/'' (stripWildcard path))
            in 1000 + (100 - int (length segments))))"

text \<open>
  \<^verbatim>\<open>matchRoute(path, pattern, isExact, prefix?)\<close>. An absent \<open>prefix\<close> is \<open>None\<close>;
  \<^verbatim>\<open>prefix || ...\<close> also falls through for the empty string.
\<close>

definition matchRoute :: "string \<Rightarrow> string \<Rightarrow> bool \<Rightarrow> string option \<Rightarrow> bool" where
  "matchRoute path pattern isExact prefix =
     (if isExact then path = pattern
      else (let routePrefix = (case prefix of
                                 Some p \<Rightarrow> if p \<noteq> [] then p else stripWildcard pattern
                               | None \<Rightarrow> stripWildcard pattern)
            in path = routePrefix \<or> startsWith path (routePrefix @ ''/'')))"

text \<open>
  \<^verbatim>\<open>extractParams(path, pattern, isExact, prefix?)\<close>. The result object is a map from
  parameter names to values, the object's own properties; assigning a key twice keeps
  the later value. \<open>assignProperty\<close> is the assignment \<^verbatim>\<open>params[paramName] = value\<close> of a
  string to the object that began as \<^verbatim>\<open>{}\<close>: it creates or overwrites the property,
  except under the name \<^verbatim>\<open>__proto__\<close>, which such an object inherits as an accessor
  whose setter ignores a string, so that the object gets no property of that name.
  \<open>bracketParams\<close> is the \<^verbatim>\<open>forEach\<close> over the pattern's parts, with the index
  counted up from \<open>i\<close>; \<^verbatim>\<open>pathParts[index] || ''\<close> is the empty string beyond the end.
\<close>

type_synonym params = "string \<rightharpoonup> string"

definition assignProperty :: "params \<Rightarrow> string \<Rightarrow> string \<Rightarrow> params" where
  "assignProperty ps k v = (if k = ''__proto__'' then ps else ps(k \<mapsto> v))"

definition isBracket :: "string \<Rightarrow> bool" where
  "isBracket part = (startsWith part ''['' \<and> endsWith part '']'')"

definition partAt :: "string list \<Rightarrow> nat \<Rightarrow> string" where
  "partAt pathParts i = (if i < length pathParts then pathParts ! i else [])"

fun bracketParams :: "string list \<Rightarrow> string list \<Rightarrow> nat \<Rightarrow> params \<Rightarrow> params" where
  "bracketParams [] pathParts i ps = ps"
| "bracketParams (part # rest) pathParts i ps =
     bracketParams rest pathParts (Suc i)
       (if isBracket part then assignProperty ps (slice_inner part) (partAt pathParts i)
        else ps)"

definition wildcardParam :: "string \<Rightarrow> bool \<Rightarrow> string option \<Rightarrow> params" where
  "wildcardParam path isExact prefix =
     (case prefix of
        None \<Rightarrow> Map.empty
      | Some p \<Rightarrow>
          if \<not> isExact \<and> p \<noteq> [] then
            (let remaining = drop (length p) path
             in if startsWith remaining ''/'' then [''*'' \<mapsto> drop 1 remaining]
                else if remaining = [] then [''*'' \<mapsto> []]
                else Map.empty)
          else Map.empty)"

definition extractParams :: "string \<Rightarrow> string \<Rightarrow> bool \<Rightarrow> string option \<Rightarrow> params" where
  "extractParams path pattern isExact prefix =
     (let ps = wildcardParam path isExact prefix
      in if includes_str pattern CHR ''['' \<and> includes_str pattern CHR '']''
         then bracketParams (split CHR ''/'' pattern) (split CHR ''/'' path) 0 ps
         else ps)"


text \<open>
  The two counts the priority is computed from: the parts of \<^verbatim>\<open>path.split('/')\<close>, and
  the non-empty parts left once one trailing \<^verbatim>\<open>/*\<close> is removed.
\<close>

definition segmentCount :: "string \<Rightarrow> nat" where
  "segmentCount path = length (split CHR ''/'' path)"

definition prefixSegments :: "string \<Rightarrow> nat" where
  "prefixSegments path = length (filterBoolean (split CHR ''/'' (stripWildcard path)))"


section \<open>Requests, responses and user code\<close>

text \<open>
  A response is represented by the helper call that builds it: \<^verbatim>\<open>Responses.next()\<close>,
  \<^verbatim>\<open>Responses.redirect(url, baseUrl)\<close> (the two arguments, before the host resolves the
  one against the other) and \<^verbatim>\<open>Responses.json(data, status)\<close>.
\<close>

datatype response = Next | Redirect string string | Json string nat

definition Responses_next :: response where
  "Responses_next = Next"

definition Responses_redirect :: "string \<Rightarrow> string \<Rightarrow> response" where
  "Responses_redirect u baseUrl = Redirect u baseUrl"

text \<open>
  The request: its \<^verbatim>\<open>url\<close>, and the \<^verbatim>\<open>pathname\<close> the host's URL parser reads from it.
\<close>

record request =
  url :: string
  pathname :: string

type_synonym error = string

text \<open>
  User code (rules, plugin hooks, the user fetcher) runs against a state it may change and
  either returns a value or throws; what it changed before throwing stays changed.
\<close>

datatype 'a outcome = Returned 'a | Threw error

type_synonym ('a, 's) action = "'s \<Rightarrow> 'a outcome \<times> 's"

text \<open>
  \<^verbatim>\<open>MiddlewareContext\<close>. The state user code sees is the context together with
  whatever else (\<open>'w\<close>) its closures can reach.
\<close>

record ('d, 'm) MiddlewareContext =
  data :: "'d option"
  req :: request
  path :: string
  params :: params
  metadata :: "string \<rightharpoonup> 'm"

type_synonym ('d, 'm, 'w) store = "('d, 'm) MiddlewareContext \<times> 'w"

text \<open>\<^verbatim>\<open>MiddlewareResult\<close> is a response or null; a rule maps the context to one.\<close>

type_synonym MiddlewareResult = "response option"

type_synonym ('d, 'm, 'w) MiddlewareRule = "(MiddlewareResult, ('d, 'm, 'w) store) action"

text \<open>\<^verbatim>\<open>Plugin\<close>: a name and five optional hooks.\<close>

record ('d, 'm, 'w) Plugin =
  name :: string
  beforeRequest :: "(unit, ('d, 'm, 'w) store) action option"
  beforeRule :: "(('d, 'm, 'w) MiddlewareRule \<Rightarrow> (unit, ('d, 'm, 'w) store) action) option"
  afterRule :: "(('d, 'm, 'w) MiddlewareRule \<Rightarrow> MiddlewareResult
                   \<Rightarrow> (unit, ('d, 'm, 'w) store) action) option"
  afterRequest :: "(MiddlewareResult \<Rightarrow> (unit, ('d, 'm, 'w) store) action) option"
  onError :: "(error \<Rightarrow> (MiddlewareResult, ('d, 'm, 'w) store) action) option"


section \<open>The route table (core/middleware-builder)\<close>

record ('r, 'm) RouteDefinition =
  pattern :: string
  rules :: "'r list"
  priority :: int
  isExact :: bool
  prefix :: "string option"
  route_metadata :: "string \<rightharpoonup> 'm"

record ('d, 'm, 'w) MiddlewareBuilder =
  routes :: "(('d, 'm, 'w) MiddlewareRule, 'm) RouteDefinition list"
  authPaths :: "string list"
  fetchUserFn :: "request \<Rightarrow> ('d option, ('d, 'm, 'w) store) action"
  plugins :: "('d, 'm, 'w) Plugin list"
  defaultMetadata :: "string \<rightharpoonup> 'm"

text \<open>The constructor: absent options default to empty.\<close>

record ('d, 'm, 'w) MiddlewareBuilderOptions =
  opt_fetchUser :: "request \<Rightarrow> ('d option, ('d, 'm, 'w) store) action"
  opt_authPaths :: "string list option"
  opt_plugins :: "('d, 'm, 'w) Plugin list option"
  opt_defaultMetadata :: "(string \<rightharpoonup> 'm) option"

definition new_MiddlewareBuilder ::
  "('d, 'm, 'w) MiddlewareBuilderOptions \<Rightarrow> ('d, 'm, 'w) MiddlewareBuilder" where
  "new_MiddlewareBuilder options =
     \<lparr> routes = [],
       authPaths = (case opt_authPaths options of Some a \<Rightarrow> a | None \<Rightarrow> []),
       fetchUserFn = opt_fetchUser options,
       plugins = (case opt_plugins options of Some ps \<Rightarrow> ps | None \<Rightarrow> []),
       defaultMetadata = (case opt_defaultMetadata options of Some m \<Rightarrow> m | None \<Rightarrow> Map.empty) \<rparr>"

definition use :: "('d, 'm, 'w) Plugin \<Rightarrow> ('d, 'm, 'w) MiddlewareBuilder
                     \<Rightarrow> ('d, 'm, 'w) MiddlewareBuilder" where
  "use plugin b = b\<lparr>plugins := plugins b @ [plugin]\<rparr>"

definition registerAuthPaths :: "string list \<Rightarrow> ('d, 'm, 'w) MiddlewareBuilder
                     \<Rightarrow> ('d, 'm, 'w) MiddlewareBuilder" where
  "registerAuthPaths paths b = b\<lparr>authPaths := authPaths b @ paths\<rparr>"

text \<open>\<^verbatim>\<open>exact(path, ...rules)\<close>\<close>

definition exact_route :: "string \<Rightarrow> ('d, 'm, 'w) MiddlewareRule list
     \<Rightarrow> ('d, 'm, 'w) MiddlewareBuilder
     \<Rightarrow> (('d, 'm, 'w) MiddlewareRule, 'm) RouteDefinition" where
  "exact_route p rs b =
     \<lparr> pattern = p, rules = rs, priority = calculatePriority p True, isExact = True,
       prefix = None, route_metadata = defaultMetadata b \<rparr>"

definition exact :: "string \<Rightarrow> ('d, 'm, 'w) MiddlewareRule list
     \<Rightarrow> ('d, 'm, 'w) MiddlewareBuilder \<Rightarrow> ('d, 'm, 'w) MiddlewareBuilder" where
  "exact p rs b = b\<lparr>routes := routes b @ [exact_route p rs b]\<rparr>"

text \<open>\<^verbatim>\<open>prefix(pathPrefix, ...rules)\<close>\<close>

definition prefix_route :: "string \<Rightarrow> ('d, 'm, 'w) MiddlewareRule list
     \<Rightarrow> ('d, 'm, 'w) MiddlewareBuilder
     \<Rightarrow> (('d, 'm, 'w) MiddlewareRule, 'm) RouteDefinition" where
  "prefix_route pathPrefix rs b =
     (let cleanPrefix = (if endsWith pathPrefix ''/'' then slice_end 1 pathPrefix
                         else pathPrefix)
      in \<lparr> pattern = pathPrefix, rules = rs, priority = calculatePriority pathPrefix False,
           isExact = False, prefix = Some cleanPrefix, route_metadata = defaultMetadata b \<rparr>)"

definition prefix_reg :: "string \<Rightarrow> ('d, 'm, 'w) MiddlewareRule list
     \<Rightarrow> ('d, 'm, 'w) MiddlewareBuilder \<Rightarrow> ('d, 'm, 'w) MiddlewareBuilder" where
  "prefix_reg pathPrefix rs b = b\<lparr>routes := routes b @ [prefix_route pathPrefix rs b]\<rparr>"

text \<open>
  \<^verbatim>\<open>route(path, {rules, isExact?, metadata?})\<close>; \<^verbatim>\<open>options.isExact ?? true\<close>, and the
  spread of an absent \<^verbatim>\<open>options.metadata\<close> adds nothing.
\<close>

record ('r, 'm) RouteOptions =
  opt_rules :: "'r list"
  opt_isExact :: "bool option"
  opt_metadata :: "(string \<rightharpoonup> 'm) option"

definition custom_route :: "string \<Rightarrow> (('d, 'm, 'w) MiddlewareRule, 'm) RouteOptions
     \<Rightarrow> ('d, 'm, 'w) MiddlewareBuilder
     \<Rightarrow> (('d, 'm, 'w) MiddlewareRule, 'm) RouteDefinition" where
  "custom_route p options b =
     (let isExact = (case opt_isExact options of Some e \<Rightarrow> e | None \<Rightarrow> True);
          cleanPrefix = (if \<not> isExact \<and> endsWith p ''/'' then Some (slice_end 1 p) else None)
      in \<lparr> pattern = p, rules = opt_rules options, priority = calculatePriority p isExact,
           isExact = isExact, prefix = cleanPrefix,
           route_metadata = defaultMetadata b ++
             (case opt_metadata options of Some m \<Rightarrow> m | None \<Rightarrow> Map.empty) \<rparr>)"

definition route :: "string \<Rightarrow> (('d, 'm, 'w) MiddlewareRule, 'm) RouteOptions
     \<Rightarrow> ('d, 'm, 'w) MiddlewareBuilder \<Rightarrow> ('d, 'm, 'w) MiddlewareBuilder" where
  "route p options b = b\<lparr>routes := routes b @ [custom_route p options b]\<rparr>"

text \<open>
  \<^verbatim>\<open>findMatchingRoute(path)\<close>: a copy of the routes sorted by
  \<^verbatim>\<open>(a, b) => a.priority - b.priority\<close> (a consistent comparator, and the sort is stable,
  so the result is the stable sort by priority), then the first route that matches.
\<close>

definition matches :: "string \<Rightarrow> ('r, 'm) RouteDefinition \<Rightarrow> bool" where
  "matches p r = matchRoute p (pattern r) (isExact r) (prefix r)"

definition findMatchingRoute ::
  "('r, 'm) RouteDefinition list \<Rightarrow> string \<Rightarrow> ('r, 'm) RouteDefinition option" where
  "findMatchingRoute rs p = (let sortedRoutes = sort_key priority rs
                              in find (matches p) sortedRoutes)"



section \<open>The request pipeline (core/middleware-builder)\<close>

text \<open>
  What \<^verbatim>\<open>console.error\<close> has printed: the plugin's name, the hook's name and the error
  caught. User code does not read it.
\<close>

type_synonym console = "(string \<times> string \<times> error) list"

text \<open>
  \<^verbatim>\<open>executePluginHook(hook, ...args)\<close>: every plugin in order; a plugin without the hook
  is skipped; a hook that throws is caught and reported. \<open>sel\<close> picks the hook out of a
  plugin, already applied to the call's arguments after the context.
\<close>

fun executePluginHook ::
  "string \<Rightarrow> (('d, 'm, 'w) Plugin \<Rightarrow> (unit, ('d, 'm, 'w) store) action option)
     \<Rightarrow> ('d, 'm, 'w) Plugin list \<Rightarrow> ('d, 'm, 'w) store \<times> console
     \<Rightarrow> ('d, 'm, 'w) store \<times> console" where
  "executePluginHook hook sel [] (s, out) = (s, out)"
| "executePluginHook hook sel (plugin # rest) (s, out) =
     (case sel plugin of
        None \<Rightarrow> executePluginHook hook sel rest (s, out)
      | Some hookFn \<Rightarrow>
          (case hookFn s of
             (Returned _, s') \<Rightarrow> executePluginHook hook sel rest (s', out)
           | (Threw e, s') \<Rightarrow>
               executePluginHook hook sel rest (s', out @ [(name plugin, hook, e)])))"

definition hook_beforeRequest ::
  "('d, 'm, 'w) Plugin \<Rightarrow> (unit, ('d, 'm, 'w) store) action option" where
  "hook_beforeRequest plugin = beforeRequest plugin"

definition hook_beforeRule :: "('d, 'm, 'w) MiddlewareRule
     \<Rightarrow> ('d, 'm, 'w) Plugin \<Rightarrow> (unit, ('d, 'm, 'w) store) action option" where
  "hook_beforeRule rule plugin = map_option (\<lambda>h. h rule) (beforeRule plugin)"

definition hook_afterRule :: "('d, 'm, 'w) MiddlewareRule \<Rightarrow> MiddlewareResult
     \<Rightarrow> ('d, 'm, 'w) Plugin \<Rightarrow> (unit, ('d, 'm, 'w) store) action option" where
  "hook_afterRule rule result plugin = map_option (\<lambda>h. h rule result) (afterRule plugin)"

definition hook_afterRequest :: "MiddlewareResult
     \<Rightarrow> ('d, 'm, 'w) Plugin \<Rightarrow> (unit, ('d, 'm, 'w) store) action option" where
  "hook_afterRequest result plugin = map_option (\<lambda>h. h result) (afterRequest plugin)"

text \<open>
  \<^verbatim>\<open>handlePluginErrors(context, error)\<close>: the first \<^verbatim>\<open>onError\<close> that returns a result
  supplies it; one that throws is caught and reported; null when none decides.
\<close>

fun handlePluginErrors ::
  "('d, 'm, 'w) Plugin list \<Rightarrow> error \<Rightarrow> ('d, 'm, 'w) store \<times> console
     \<Rightarrow> MiddlewareResult \<times> ('d, 'm, 'w) store \<times> console" where
  "handlePluginErrors [] err (s, out) = (None, s, out)"
| "handlePluginErrors (plugin # rest) err (s, out) =
     (case onError plugin of
        None \<Rightarrow> handlePluginErrors rest err (s, out)
      | Some f \<Rightarrow>
          (case f err s of
             (Returned (Some result), s') \<Rightarrow> (Some result, s', out)
           | (Returned None, s') \<Rightarrow> handlePluginErrors rest err (s', out)
           | (Threw pluginError, s') \<Rightarrow>
               handlePluginErrors rest err
                 (s', out @ [(name plugin, ''onError'', pluginError)])))"

text \<open>
  The loop over the matched route's rules inside \<^verbatim>\<open>build\<close>, with the pass-through that
  follows it. A rule that throws leaves the \<^verbatim>\<open>try\<close> block.
\<close>

fun ruleLoop ::
  "('d, 'm, 'w) Plugin list \<Rightarrow> ('d, 'm, 'w) MiddlewareRule list
     \<Rightarrow> ('d, 'm, 'w) store \<times> console
     \<Rightarrow> response outcome \<times> ('d, 'm, 'w) store \<times> console" where
  "ruleLoop ps [] st =
     (let result = Responses_next
      in (Returned result, executePluginHook ''afterRequest'' (hook_afterRequest (Some result)) ps st))"
| "ruleLoop ps (rule # rest) st =
     (let (s1, out1) = executePluginHook ''beforeRule'' (hook_beforeRule rule) ps st
      in case rule s1 of
           (Threw e, s2) \<Rightarrow> (Threw e, s2, out1)
         | (Returned result, s2) \<Rightarrow>
             (let st3 = executePluginHook ''afterRule'' (hook_afterRule rule result) ps (s2, out1)
              in case result of
                   Some r \<Rightarrow>
                     (Returned r,
                      executePluginHook ''afterRequest'' (hook_afterRequest result) ps st3)
                 | None \<Rightarrow> ruleLoop ps rest st3))"

text \<open>The \<^verbatim>\<open>try\<close> block of the handler that \<^verbatim>\<open>build()\<close> returns.\<close>

definition tryBlock ::
  "('d, 'm, 'w) MiddlewareBuilder \<Rightarrow> request \<Rightarrow> ('d, 'm, 'w) store \<times> console
     \<Rightarrow> response outcome \<times> ('d, 'm, 'w) store \<times> console" where
  "tryBlock b rq st0 =
     (let p = pathname rq;
          (s1, out1) = executePluginHook ''beforeRequest'' hook_beforeRequest (plugins b) st0
      in case findMatchingRoute (routes b) p of
           None \<Rightarrow>
             (let result = Responses_next
              in (Returned result,
                  executePluginHook ''afterRequest'' (hook_afterRequest (Some result))
                    (plugins b) (s1, out1)))
         | Some matchingRoute \<Rightarrow>
             (let (context, w) = s1;
                  context = context\<lparr>params :=
                    extractParams p (pattern matchingRoute) (isExact matchingRoute)
                      (prefix matchingRoute)\<rparr>;
                  context = context\<lparr>metadata :=
                    metadata context ++ route_metadata matchingRoute\<rparr>
              in case fetchUserFn b rq (context, w) of
                   (Threw e, s2) \<Rightarrow> (Threw e, s2, out1)
                 | (Returned d, (context, w)) \<Rightarrow>
                     ruleLoop (plugins b) (rules matchingRoute)
                       ((context\<lparr>data := d\<rparr>, w), out1)))"

text \<open>The test the \<^verbatim>\<open>catch\<close> block makes on the configured auth paths.\<close>

definition isAuthPath :: "string list \<Rightarrow> string \<Rightarrow> bool" where
  "isAuthPath aps p =
     list_ex (\<lambda>authPath. if endsWith authPath ''/*''
                          then startsWith p (slice_end 2 authPath)
                          else p = authPath) aps"

definition catchBlock ::
  "('d, 'm, 'w) MiddlewareBuilder \<Rightarrow> request \<Rightarrow> error \<Rightarrow> ('d, 'm, 'w) store \<times> console
     \<Rightarrow> response \<times> ('d, 'm, 'w) store \<times> console" where
  "catchBlock b rq err st =
     (case handlePluginErrors (plugins b) err st of
        (Some pluginResult, st') \<Rightarrow> (pluginResult, st')
      | (None, st') \<Rightarrow>
          if isAuthPath (authPaths b) (pathname rq) then (Responses_next, st')
          else (Responses_redirect ''/sign-in'' (url rq), st'))"

text \<open>
  The handler that \<^verbatim>\<open>build()\<close> returns, run on a request and on the state \<open>w\<close> that user
  code can reach; it yields the response, the final context and state, and the console
  output. The \<^verbatim>\<open>catch\<close> block cannot throw, so the handler always answers.
\<close>

definition build ::
  "('d, 'm, 'w) MiddlewareBuilder \<Rightarrow> request \<Rightarrow> 'w
     \<Rightarrow> response \<times> ('d, 'm, 'w) store \<times> console" where
  "build b rq w =
     (let context = \<lparr> data = None, req = rq, path = pathname rq, params = Map.empty,
                      metadata = defaultMetadata b \<rparr>
      in case tryBlock b rq ((context, w), []) of
           (Returned result, st) \<Rightarrow> (result, st)
         | (Threw e, st) \<Rightarrow> catchBlock b rq e st)"

text \<open>
  The steps of one run, named so that a theorem can speak of the states a run goes
  through. \<open>enterRoute\<close> is the \<^verbatim>\<open>try\<close> block up to the rule loop: the
  \<^verbatim>\<open>beforeRequest\<close> hooks, the route resolution, the parameters and metadata written to
  the context, and the user fetch. It ends with no route, with the fetch having thrown, or
  with the matched route and the state in which the first rule is about to run.
  \<open>ruleStep\<close> is one pass of the rule loop, up to the test of the rule's result.
  \<open>nullRun\<close> runs rules in order for as long as each returns null, and yields the state
  after the last one; it yields nothing when one of them decides or throws.
\<close>

datatype ('r, 'm, 's) entry =
    NoRoute 's
  | FetchThrew error 's
  | Entered "('r, 'm) RouteDefinition" 's

definition enterRoute ::
  "('d, 'm, 'w) MiddlewareBuilder \<Rightarrow> request \<Rightarrow> ('d, 'm, 'w) store \<times> console
     \<Rightarrow> (('d, 'm, 'w) MiddlewareRule, 'm, ('d, 'm, 'w) store \<times> console) entry" where
  "enterRoute b rq st0 =
     (let p = pathname rq;
          (s1, out1) = executePluginHook ''beforeRequest'' hook_beforeRequest (plugins b) st0
      in case findMatchingRoute (routes b) p of
           None \<Rightarrow> NoRoute (s1, out1)
         | Some matchingRoute \<Rightarrow>
             (let (context, w) = s1;
                  context = context\<lparr>params :=
                    extractParams p (pattern matchingRoute) (isExact matchingRoute)
                      (prefix matchingRoute)\<rparr>;
                  context = context\<lparr>metadata :=
                    metadata context ++ route_metadata matchingRoute\<rparr>
              in case fetchUserFn b rq (context, w) of
                   (Threw e, s2) \<Rightarrow> FetchThrew e (s2, out1)
                 | (Returned d, (context, w)) \<Rightarrow>
                     Entered matchingRoute ((context\<lparr>data := d\<rparr>, w), out1)))"

definition ruleStep ::
  "('d, 'm, 'w) Plugin list \<Rightarrow> ('d, 'm, 'w) MiddlewareRule
     \<Rightarrow> ('d, 'm, 'w) store \<times> console
     \<Rightarrow> MiddlewareResult outcome \<times> ('d, 'm, 'w) store \<times> console" where
  "ruleStep ps rule st =
     (let (s1, out1) = executePluginHook ''beforeRule'' (hook_beforeRule rule) ps st
      in case rule s1 of
           (Threw e, s2) \<Rightarrow> (Threw e, s2, out1)
         | (Returned result, s2) \<Rightarrow>
             (Returned result,
              executePluginHook ''afterRule'' (hook_afterRule rule result) ps (s2, out1)))"

fun nullRun ::
  "('d, 'm, 'w) Plugin list \<Rightarrow> ('d, 'm, 'w) MiddlewareRule list
     \<Rightarrow> ('d, 'm, 'w) store \<times> console \<Rightarrow> (('d, 'm, 'w) store \<times> console) option" where
  "nullRun ps [] st = Some st"
| "nullRun ps (rule # rest) st =
     (case ruleStep ps rule st of
        (Returned None, st') \<Rightarrow> nullRun ps rest st'
      | (Returned (Some r), st') \<Rightarrow> None
      | (Threw e, st') \<Rightarrow> None)"

text \<open>The parameters \<^verbatim>\<open>build\<close> extracts for a matched route.\<close>

definition routeParams :: "string \<Rightarrow> ('r, 'm) RouteDefinition \<Rightarrow> params" where
  "routeParams p r = extractParams p (pattern r) (isExact r) (prefix r)"

text \<open>
  A hook with the same effect on the state that returns normally where the given one
  throws, and a plugin whose four hooks other than \<^verbatim>\<open>onError\<close> are so replaced. They
  serve to state that an exception from such a hook changes nothing but the console.
\<close>

definition swallow :: "('a, 's) action \<Rightarrow> (unit, 's) action" where
  "swallow h = (\<lambda>s. (Returned (), snd (h s)))"

definition swallowed :: "('d, 'm, 'w) Plugin \<Rightarrow> ('d, 'm, 'w) Plugin" where
  "swallowed plugin =
     plugin\<lparr> beforeRequest := map_option swallow (beforeRequest plugin),
             beforeRule := map_option (\<lambda>h rule. swallow (h rule)) (beforeRule plugin),
             afterRule := map_option (\<lambda>h rule result. swallow (h rule result)) (afterRule plugin),
             afterRequest := map_option (\<lambda>h result. swallow (h result)) (afterRequest plugin) \<rparr>"

text \<open>The context a request starts with, as \<^verbatim>\<open>build\<close> sets it up.\<close>

definition initialContext ::
  "('d, 'm, 'w) MiddlewareBuilder \<Rightarrow> request \<Rightarrow> ('d, 'm) MiddlewareContext" where
  "initialContext b rq =
     \<lparr> data = None, req = rq, path = pathname rq, params = Map.empty,
       metadata = defaultMetadata b \<rparr>"

text \<open>The result and final state of a run, the console output left aside.\<close>

definition observable :: "'a \<times> 's \<times> console \<Rightarrow> 'a \<times> 's" where
  "observable run = (fst run, fst (snd run))"


section \<open>The legacy matcher (legacy/middleware)\<close>









text \<open>
  This comparator never answers 0, so it is not a consistent comparator in the sense of
  ECMAScript, and the language leaves the resulting order to the engine. The engine of
  Node.js and of the Edge runtime, where the package runs, is V8, whose
  \<^verbatim>\<open>Array.prototype.sort\<close> is TimSort. For an array of fewer than 64 elements the minimal
  run length is the array's length, and TimSort consists of two steps, modelled below:
  \<^verbatim>\<open>CountAndMakeRun\<close> finds the run the array starts with (descending when
  \<^verbatim>\<open>compare(a[1], a[0]) < 0\<close>, and then reversed in place), and \<^verbatim>\<open>BinaryInsertionSort\<close>
  inserts each remaining element into the sorted front at the index a binary search
  finds. The merging of several runs, which longer arrays need, is not modelled.
\<close>
























section \<open>Concrete routes and builders used as examples\<close>

definition users_id_route :: "(unit, unit) RouteDefinition" where
  "users_id_route =
     \<lparr> pattern = ''/users/[id]'', rules = [],
       priority = calculatePriority ''/users/[id]'' True, isExact = True,
       prefix = None, route_metadata = Map.empty \<rparr>"

text \<open>A builder fresh from the constructor, with a fetcher that finds no user.\<close>

definition fresh_options :: "(unit, unit, unit) MiddlewareBuilderOptions" where
  "fresh_options =
     \<lparr> opt_fetchUser = (\<lambda>rq s. (Returned None, s)), opt_authPaths = None,
       opt_plugins = None, opt_defaultMetadata = None \<rparr>"

definition fresh_builder :: "(unit, unit, unit) MiddlewareBuilder" where
  "fresh_builder = new_MiddlewareBuilder fresh_options"

text \<open>\<^verbatim>\<open>{ rules: [], isExact: false }\<close>\<close>

definition prefix_options :: "((unit, unit, unit) MiddlewareRule, unit) RouteOptions" where
  "prefix_options = \<lparr> opt_rules = [], opt_isExact = Some False, opt_metadata = None \<rparr>"


text \<open>
  User code for the examples. The state beyond the context is a journal of lines, to
  which each piece of user code adds its own when it runs.
\<close>

type_synonym journal_store = "(unit, unit, string list) store"

definition journal :: "string \<Rightarrow> journal_store \<Rightarrow> journal_store" where
  "journal line s = (fst s, snd s @ [line])"

definition rule_pass :: "(unit, unit, string list) MiddlewareRule" where
  "rule_pass s = (Returned None, journal ''R1'' s)"

definition rule_deny :: "(unit, unit, string list) MiddlewareRule" where
  "rule_deny s = (Returned (Some (Json ''denied'' 403)), journal ''R2'' s)"

definition rule_late :: "(unit, unit, string list) MiddlewareRule" where
  "rule_late s = (Threw ''R3 was invoked'', journal ''R3'' s)"

definition rule_boom :: "(unit, unit, string list) MiddlewareRule" where
  "rule_boom s = (Threw ''boom'', journal ''boom'' s)"

definition journal_options :: "(unit, unit, string list) MiddlewareBuilderOptions" where
  "journal_options =
     \<lparr> opt_fetchUser = (\<lambda>rq s. (Returned None, s)), opt_authPaths = Some [''/api/*''],
       opt_plugins = None, opt_defaultMetadata = None \<rparr>"

text \<open>
  A rule like the built-in \<^verbatim>\<open>Rules.isLoggedIn()\<close>, whose verdict depends on the context:
  null when user data is present, a redirect to \<^verbatim>\<open>/sign-in\<close> otherwise.
\<close>

definition rule_isLoggedIn :: "(unit, unit, string list) MiddlewareRule" where
  "rule_isLoggedIn s =
     (if data (fst s) \<noteq> None then Returned None
      else Returned (Some (Redirect ''/sign-in'' ''http://localhost:3000'')),
      journal ''isLoggedIn'' s)"

text \<open>
  \<^verbatim>\<open>new MiddlewareBuilder({...}).exact('/account', isLoggedIn, R2, R3)\<close>, once with a
  fetcher that finds a user and once with one that finds none, and the route
  \<^verbatim>\<open>exact('/account', R1, R1)\<close>.
\<close>

definition member_builder :: "(unit, unit, string list) MiddlewareBuilder" where
  "member_builder =
     exact ''/account'' [rule_isLoggedIn, rule_deny, rule_late]
       (new_MiddlewareBuilder
          (journal_options\<lparr>opt_fetchUser := (\<lambda>rq s. (Returned (Some ()), s))\<rparr>))"

definition guest_builder :: "(unit, unit, string list) MiddlewareBuilder" where
  "guest_builder =
     exact ''/account'' [rule_isLoggedIn, rule_deny, rule_late]
       (new_MiddlewareBuilder journal_options)"

definition pass_builder :: "(unit, unit, string list) MiddlewareBuilder" where
  "pass_builder =
     exact ''/account'' [rule_pass, rule_pass] (new_MiddlewareBuilder journal_options)"

definition account_request :: request where
  "account_request = \<lparr> url = ''http://localhost:3000/account'', pathname = ''/account'' \<rparr>"

text \<open>
  A plugin whose only hook is an \<^verbatim>\<open>onError\<close> that journals and returns nothing, and the
  builder
  \<^verbatim>\<open>new MiddlewareBuilder({..., authPaths: ['/api/*']}).use(reporter).prefix('/api', boom).prefix('/admin', boom)\<close>
\<close>

definition reporter_plugin :: "(unit, unit, string list) Plugin" where
  "reporter_plugin =
     \<lparr> name = ''reporter'', beforeRequest = None, beforeRule = None, afterRule = None,
       afterRequest = None,
       onError = Some (\<lambda>e s. (Returned None, journal ''reporter.onError'' s)) \<rparr>"

definition failing_builder :: "(unit, unit, string list) MiddlewareBuilder" where
  "failing_builder =
     prefix_reg ''/admin'' [rule_boom]
       (prefix_reg ''/api'' [rule_boom]
          (use reporter_plugin (new_MiddlewareBuilder journal_options)))"

definition api_request :: request where
  "api_request = \<lparr> url = ''http://localhost:3000/api/x'', pathname = ''/api/x'' \<rparr>"

definition admin_request :: request where
  "admin_request = \<lparr> url = ''http://localhost:3000/admin/x'', pathname = ''/admin/x'' \<rparr>"

text \<open>
  A plugin whose \<^verbatim>\<open>beforeRequest\<close> hook throws, a plugin that journals
  \<^verbatim>\<open>beforeRequest\<close> and \<^verbatim>\<open>afterRequest\<close>, and the builder
  \<^verbatim>\<open>new MiddlewareBuilder({...}).use(faulty).use(audit).exact('/account', R1, R2)\<close>.
\<close>

definition faulty_hook :: "(unit, journal_store) action" where
  "faulty_hook s = (Threw ''hook failed'', journal ''faulty.beforeRequest'' s)"

definition faulty_plugin :: "(unit, unit, string list) Plugin" where
  "faulty_plugin =
     \<lparr> name = ''faulty'', beforeRequest = Some faulty_hook, beforeRule = None,
       afterRule = None, afterRequest = None, onError = None \<rparr>"

definition audit_plugin :: "(unit, unit, string list) Plugin" where
  "audit_plugin =
     \<lparr> name = ''audit'',
       beforeRequest = Some (\<lambda>s. (Returned (), journal ''audit.beforeRequest'' s)),
       beforeRule = None, afterRule = None,
       afterRequest = Some (\<lambda>result s. (Returned (), journal ''audit.afterRequest'' s)),
       onError = None \<rparr>"

definition plugin_builder :: "(unit, unit, string list) MiddlewareBuilder" where
  "plugin_builder =
     exact ''/account'' [rule_pass, rule_deny]
       (use audit_plugin (use faulty_plugin (new_MiddlewareBuilder journal_options)))"

text \<open>A builder whose user fetcher throws, with the exact route \<^verbatim>\<open>/account\<close>.\<close>

definition fetchless_builder :: "(unit, unit, string list) MiddlewareBuilder" where
  "fetchless_builder =
     exact ''/account'' [rule_pass]
       (new_MiddlewareBuilder
          (journal_options\<lparr>opt_fetchUser := (\<lambda>rq s. (Threw ''no session'', s))\<rparr>))"






section \<open>Facts about the string operations and the route table\<close>

lemma length_split: "length (split c s) = Suc (count_list s c)"
  by (induction s) (auto split: list.splits)

lemma find_sort_key_mem:
  assumes "find P (sort_key f xs) = Some r"
  shows "r \<in> set xs \<and> P r"
proof -
  from assms obtain i where
    "i < length (sort_key f xs)" "P (sort_key f xs ! i)" "r = sort_key f xs ! i"
    unfolding find_Some_iff by blast
  then show ?thesis using nth_mem[of i "sort_key f xs"] by simp
qed

lemma find_sort_key_least:
  assumes "find P (sort_key f xs) = Some r" "r' \<in> set xs" "P r'"
  shows "f r \<le> f r'"
proof -
  let ?ys = "sort_key f xs"
  from assms(1) obtain i where i: "i < length ?ys" "P (?ys ! i)" "r = ?ys ! i"
    "\<forall>j<i. \<not> P (?ys ! j)"
    unfolding find_Some_iff by blast
  from assms(2) have "r' \<in> set ?ys" by simp
  then obtain k where k: "k < length ?ys" "?ys ! k = r'" unfolding in_set_conv_nth by blast
  with assms(3) i(4) have "i \<le> k" by (metis not_le_imp_less)
  have "sorted (map f ?ys)" by (rule sorted_sort_key)
  from sorted_nth_mono[OF this, of i k] \<open>i \<le> k\<close> k(1) i(1) have "f (?ys ! i) \<le> f (?ys ! k)"
    by simp
  with i(3) k(2) show ?thesis by simp
qed

lemma find_sort_key_none:
  "find P (sort_key f xs) = None \<Longrightarrow> r \<in> set xs \<Longrightarrow> \<not> P r"
  by (simp add: find_None_iff)

lemma findMatchingRoute_matches:
  assumes "findMatchingRoute rs q = Some x"
  shows "x \<in> set rs \<and> matchRoute q (pattern x) (isExact x) (prefix x)"
proof -
  from assms have "find (matches q) (sort_key priority rs) = Some x"
    by (simp add: findMatchingRoute_def)
  from find_sort_key_mem[OF this] show ?thesis by (simp add: matches_def)
qed

lemma routes_new: "routes (new_MiddlewareBuilder opts) = []"
  by (simp add: new_MiddlewareBuilder_def)

lemma priority_admin: "calculatePriority ''/admin'' False = 1099"
  by (simp add: calculatePriority_def filterBoolean_def stripWildcard_def endsWith_def)

lemma priority_admin_users: "calculatePriority ''/admin/users'' False = 1098"
  by (simp add: calculatePriority_def filterBoolean_def stripWildcard_def endsWith_def)















lemma matches_custom_prefix:
  assumes "\<not> endsWith p ''/*''"
  shows "matches q (custom_route p \<lparr>opt_rules = rs, opt_isExact = Some False, opt_metadata = md\<rparr> b)
         = matches q (prefix_route p rs b)"
  using assms
  by (auto simp: matches_def matchRoute_def custom_route_def prefix_route_def stripWildcard_def Let_def)


section \<open>The priority calculator\<close>

text \<open>
  Claim C1, as amended. An exact pattern's priority is ten times the number of parts of
  \<^verbatim>\<open>pattern.split('/')\<close> (one more than the number of slashes; empty parts count). A
  prefix pattern's priority is \<open>1000 + (100 - s)\<close>, with \<open>s\<close> the number of non-empty
  parts left after one trailing \<^verbatim>\<open>/*\<close> is removed. When both counts are at most 100 the
  exact priority is at most the prefix priority, and strictly below it as soon as one of
  the two counts is below 100.
\<close>

theorem calculatePriority_order:
  "calculatePriority e True = int (segmentCount e) * 10
   \<and> segmentCount e = Suc (count_list e CHR ''/'')
   \<and> calculatePriority p False = 1000 + (100 - int (prefixSegments p))
   \<and> (segmentCount e \<le> 100 \<and> prefixSegments p \<le> 100
        \<longrightarrow> calculatePriority e True \<le> calculatePriority p False)
   \<and> (segmentCount e \<le> 100 \<and> prefixSegments p \<le> 100
        \<and> (segmentCount e < 100 \<or> prefixSegments p < 100)
        \<longrightarrow> calculatePriority e True < calculatePriority p False)"
  by (auto simp: calculatePriority_def segmentCount_def prefixSegments_def length_split)

text \<open>
  The theorem at the exact pattern \<^verbatim>\<open>/login\<close> and the prefix pattern \<^verbatim>\<open>/admin/*\<close>.
\<close>

theorem calculatePriority_order_witness:
  "segmentCount ''/login'' \<le> 100 \<and> prefixSegments ''/admin/*'' \<le> 100
   \<and> (segmentCount ''/login'' < 100 \<or> prefixSegments ''/admin/*'' < 100)
   \<and> calculatePriority ''/login'' True \<le> calculatePriority ''/admin/*'' False
   \<and> calculatePriority ''/login'' True < calculatePriority ''/admin/*'' False"
proof -
  have h: "segmentCount ''/login'' \<le> 100 \<and> prefixSegments ''/admin/*'' \<le> 100
           \<and> (segmentCount ''/login'' < 100 \<or> prefixSegments ''/admin/*'' < 100)"
    by (simp add: segmentCount_def prefixSegments_def filterBoolean_def stripWildcard_def
        endsWith_def slice_end_def)
  note t = calculatePriority_order [of "''/login''" "''/admin/*''"]
  from h have h': "segmentCount ''/login'' \<le> 100 \<and> prefixSegments ''/admin/*'' \<le> 100"
    by blast
  have le: "calculatePriority ''/login'' True \<le> calculatePriority ''/admin/*'' False"
    by (rule mp [OF t [THEN conjunct2, THEN conjunct2, THEN conjunct2, THEN conjunct1] h'])
  have less: "calculatePriority ''/login'' True < calculatePriority ''/admin/*'' False"
    by (rule mp [OF t [THEN conjunct2, THEN conjunct2, THEN conjunct2, THEN conjunct2] h])
  from h le less show ?thesis by blast
qed

text \<open>
  Claim C1 as stated fails at the ceiling: the exact pattern of 99 segments \<^verbatim>\<open>/a\<close> (100
  parts) and the prefix pattern of 100 segments \<^verbatim>\<open>/a\<close> both have priority 1000.
\<close>

theorem calculatePriority_ceiling_counterexample:
  "segmentCount (concat (replicate 99 ''/a'')) \<le> 100
   \<and> prefixSegments (concat (replicate 100 ''/a'')) \<le> 100
   \<and> \<not> calculatePriority (concat (replicate 99 ''/a'')) True
         < calculatePriority (concat (replicate 100 ''/a'')) False"
  by code_simp


section \<open>Route resolution\<close>

text \<open>
  Claim C2. On a fresh builder, with the prefix routes \<^verbatim>\<open>/admin\<close> and
  \<^verbatim>\<open>/admin/users\<close> registered in either order and with any rules, resolving
  \<^verbatim>\<open>/admin/users/5\<close> returns the \<^verbatim>\<open>/admin/users\<close> route: its priority 1098 sorts before
  the 1099 of \<^verbatim>\<open>/admin\<close>, and it matches. In general the route resolution returns, of
  the routes that match the path, one of least priority, and none only when no route
  matches.
\<close>

theorem deeper_prefix_wins:
  fixes opts :: "('d, 'm, 'w) MiddlewareBuilderOptions"
  shows "findMatchingRoute
       (routes (prefix_reg ''/admin/users'' rb
                 (prefix_reg ''/admin'' ra (new_MiddlewareBuilder opts))))
       ''/admin/users/5''
     = Some (prefix_route ''/admin/users'' rb (new_MiddlewareBuilder opts))
   \<and> findMatchingRoute
       (routes (prefix_reg ''/admin'' ra
                 (prefix_reg ''/admin/users'' rb (new_MiddlewareBuilder opts))))
       ''/admin/users/5''
     = Some (prefix_route ''/admin/users'' rb (new_MiddlewareBuilder opts))
   \<and> pattern (prefix_route ''/admin/users'' rb (new_MiddlewareBuilder opts)) = ''/admin/users''
   \<and> priority (prefix_route ''/admin/users'' rb (new_MiddlewareBuilder opts))
       < priority (prefix_route ''/admin'' ra (new_MiddlewareBuilder opts))
   \<and> (findMatchingRoute rs p = Some r
       \<longrightarrow> r \<in> set rs \<and> matches p r
           \<and> (\<forall>r'\<in>set rs. matches p r' \<longrightarrow> priority r \<le> priority r'))
   \<and> (findMatchingRoute rs p = None \<longrightarrow> (\<forall>r'\<in>set rs. \<not> matches p r'))"
proof (intro conjI impI ballI)
  assume a: "findMatchingRoute rs p = Some r"
  then have f: "find (matches p) (sort_key priority rs) = Some r"
    by (simp add: findMatchingRoute_def)
  from find_sort_key_mem [OF f] show "r \<in> set rs" "matches p r" by simp_all
  fix r' assume "r' \<in> set rs" "matches p r'"
  then show "priority r \<le> priority r'" by (rule find_sort_key_least [OF f])
next
  fix r' assume "findMatchingRoute rs p = None" "r' \<in> set rs"
  then show "\<not> matches p r'"
    by (simp add: findMatchingRoute_def find_None_iff)
qed (simp_all add: findMatchingRoute_def prefix_reg_def prefix_route_def routes_new
      priority_admin priority_admin_users matches_def matchRoute_def startsWith_def
      endsWith_def)

text \<open>
  The theorem on the fresh builder with \<^verbatim>\<open>/admin\<close> registered before
  \<^verbatim>\<open>/admin/users\<close>: the path \<^verbatim>\<open>/admin/users/5\<close> resolves to \<^verbatim>\<open>/admin/users\<close>, whose
  priority is at most that of the \<^verbatim>\<open>/admin\<close> route, which matches as well; the path
  \<^verbatim>\<open>/other\<close> resolves to no route, and the \<^verbatim>\<open>/admin\<close> route does not match it.
\<close>

theorem deeper_prefix_wins_witness:
  "findMatchingRoute
       (routes (prefix_reg ''/admin/users'' []
                 (prefix_reg ''/admin'' [] (new_MiddlewareBuilder fresh_options))))
       ''/admin/users/5''
     = Some (prefix_route ''/admin/users'' [] (new_MiddlewareBuilder fresh_options))
   \<and> matches ''/admin/users/5''
         (prefix_route ''/admin/users'' [] (new_MiddlewareBuilder fresh_options))
   \<and> matches ''/admin/users/5''
         (prefix_route ''/admin'' [] (new_MiddlewareBuilder fresh_options))
   \<and> priority (prefix_route ''/admin/users'' [] (new_MiddlewareBuilder fresh_options))
       \<le> priority (prefix_route ''/admin'' [] (new_MiddlewareBuilder fresh_options))
   \<and> findMatchingRoute
       (routes (prefix_reg ''/admin/users'' []
                 (prefix_reg ''/admin'' [] (new_MiddlewareBuilder fresh_options))))
       ''/other'' = None
   \<and> \<not> matches ''/other''
         (prefix_route ''/admin'' [] (new_MiddlewareBuilder fresh_options))"
proof -
  let ?b = "new_MiddlewareBuilder fresh_options"
  let ?rs = "routes (prefix_reg ''/admin/users'' [] (prefix_reg ''/admin'' [] ?b))"
  let ?deep = "prefix_route ''/admin/users'' [] ?b"
  let ?shallow = "prefix_route ''/admin'' [] ?b"
  note t = deeper_prefix_wins
             [where ra = "[]" and rb = "[]" and opts = fresh_options and rs = ?rs
                and p = "''/admin/users/5''" and r = ?deep]
  note u = deeper_prefix_wins
             [where ra = "[]" and rb = "[]" and opts = fresh_options and rs = ?rs
                and p = "''/other''"]
  have mem: "?shallow \<in> set ?rs"
    by (simp add: prefix_reg_def prefix_route_def)
  have h: "findMatchingRoute ?rs ''/admin/users/5'' = Some ?deep"
    by (rule t [THEN conjunct1])
  from mp [OF t [THEN conjunct2, THEN conjunct2, THEN conjunct2, THEN conjunct2,
                 THEN conjunct1] h]
  have c: "matches ''/admin/users/5'' ?deep"
    and least: "\<forall>r'\<in>set ?rs. matches ''/admin/users/5'' r' \<longrightarrow> priority ?deep \<le> priority r'"
    by blast+
  have m: "matches ''/admin/users/5'' ?shallow"
    by (simp add: matches_def matchRoute_def prefix_route_def startsWith_def endsWith_def)
  from least mem m have le: "priority ?deep \<le> priority ?shallow" by blast
  have n: "findMatchingRoute ?rs ''/other'' = None"
    by (simp add: findMatchingRoute_def prefix_reg_def prefix_route_def routes_new
        priority_admin priority_admin_users matches_def matchRoute_def startsWith_def
        endsWith_def)
  from mp [OF u [THEN conjunct2, THEN conjunct2, THEN conjunct2, THEN conjunct2,
                 THEN conjunct2] n] mem
  have nm: "\<not> matches ''/other'' ?shallow" by blast
  from h c m le n nm show ?thesis by blast
qed

text \<open>
  Claim C10. With \<open>isExact\<close> true, \<open>matchRoute\<close> is string equality, so route resolution
  returns an exact route only for the path that is the pattern itself; no table resolves
  \<^verbatim>\<open>/users/42\<close> to an exact route with pattern \<^verbatim>\<open>/users/[id]\<close>, although
  \<open>extractParams\<close> on that pattern and path binds \<open>id\<close> to \<open>42\<close>.
\<close>

theorem exact_route_needs_literal_path:
  "matchRoute p pat True pre = (p = pat)
   \<and> (findMatchingRoute rs p = Some r \<and> isExact r \<longrightarrow> p = pattern r)
   \<and> (\<forall>r'. isExact r' \<and> pattern r' = ''/users/[id]''
          \<longrightarrow> findMatchingRoute rs ''/users/42'' \<noteq> Some r')
   \<and> extractParams ''/users/42'' ''/users/[id]'' True None = [''id'' \<mapsto> ''42'']"
proof -
  have a: "q = pattern x" if "findMatchingRoute rs q = Some x" "isExact x" for q x
  proof -
    from findMatchingRoute_matches [OF that(1)]
    have "matchRoute q (pattern x) (isExact x) (prefix x)" ..
    with that(2) show ?thesis by (simp add: matchRoute_def)
  qed
  have b: "extractParams ''/users/42'' ''/users/[id]'' True None = [''id'' \<mapsto> ''42'']"
    by (simp add: extractParams_def wildcardParam_def includes_str_def isBracket_def
        startsWith_def endsWith_def slice_inner_def partAt_def assignProperty_def)
  have c: "matchRoute p pat True pre = (p = pat)"
    by (simp add: matchRoute_def)
  have d: "findMatchingRoute rs ''/users/42'' \<noteq> Some r'"
    if "isExact r'" "pattern r' = ''/users/[id]''" for r'
  proof
    assume "findMatchingRoute rs ''/users/42'' = Some r'"
    from a [OF this that(1)] that(2) have "''/users/42'' = ''/users/[id]''" by (rule trans)
    then show False by simp
  qed
  have e: "findMatchingRoute rs p = Some r \<and> isExact r \<longrightarrow> p = pattern r"
    using a [of p r] by blast
  have f: "\<forall>r'. isExact r' \<and> pattern r' = ''/users/[id]''
             \<longrightarrow> findMatchingRoute rs ''/users/42'' \<noteq> Some r'"
    using d by blast
  show ?thesis
    by (intro conjI) (rule c, rule e, rule f, rule b)
qed

text \<open>
  The theorem on the table holding the one exact route \<^verbatim>\<open>/users/[id]\<close>: it resolves for
  the literal path \<^verbatim>\<open>/users/[id]\<close> and for nothing else, in particular not for
  \<^verbatim>\<open>/users/42\<close>.
\<close>

theorem exact_route_needs_literal_path_witness:
  "findMatchingRoute [users_id_route] ''/users/[id]'' = Some users_id_route
   \<and> isExact users_id_route
   \<and> pattern users_id_route = ''/users/[id]''
   \<and> ''/users/[id]'' = pattern users_id_route
   \<and> findMatchingRoute [users_id_route] ''/users/42'' \<noteq> Some users_id_route"
proof -
  have h: "findMatchingRoute [users_id_route] ''/users/[id]'' = Some users_id_route
           \<and> isExact users_id_route"
    by (simp add: findMatchingRoute_def users_id_route_def matches_def matchRoute_def)
  have h2: "isExact users_id_route \<and> pattern users_id_route = ''/users/[id]''"
    by (simp add: users_id_route_def)
  note t = exact_route_needs_literal_path
             [of "''/users/[id]''" "[]" None "[users_id_route]" users_id_route]
  have 1: "''/users/[id]'' = pattern users_id_route"
    by (rule mp [OF t [THEN conjunct2, THEN conjunct1] h])
  have 2: "findMatchingRoute [users_id_route] ''/users/42'' \<noteq> Some users_id_route"
    by (rule mp [OF spec [OF t [THEN conjunct2, THEN conjunct2, THEN conjunct1]] h2])
  from h h2 1 2 show ?thesis by blast
qed


section \<open>Parameter extraction\<close>





section \<open>Registering a prefix route through \<^verbatim>\<open>route\<close>\<close>

text \<open>
  Claim C7, as amended. \<^verbatim>\<open>route(pattern, {rules, isExact: false})\<close> and
  \<^verbatim>\<open>prefix(pattern, ...rules)\<close> build routes with the same pattern, rules, priority and
  kind. For a pattern that ends in \<^verbatim>\<open>/\<close> both store the pattern without that slash as
  the prefix, the two routes are equal when no metadata is given, and they extract
  parameters identically. For a pattern that does not end in \<^verbatim>\<open>/*\<close> the two routes match
  the same paths. \<^verbatim>\<open>route\<close> without \<open>isExact\<close> registers an exact route.
\<close>

theorem route_prefix_registration:
  "pattern (custom_route p \<lparr>opt_rules = rs, opt_isExact = Some False, opt_metadata = md\<rparr> b)
     = pattern (prefix_route p rs b)
   \<and> rules (custom_route p \<lparr>opt_rules = rs, opt_isExact = Some False, opt_metadata = md\<rparr> b)
     = rules (prefix_route p rs b)
   \<and> priority (custom_route p \<lparr>opt_rules = rs, opt_isExact = Some False, opt_metadata = md\<rparr> b)
     = priority (prefix_route p rs b)
   \<and> isExact (custom_route p \<lparr>opt_rules = rs, opt_isExact = Some False, opt_metadata = md\<rparr> b)
     = isExact (prefix_route p rs b)
   \<and> (endsWith p ''/'' \<longrightarrow>
        prefix (custom_route p \<lparr>opt_rules = rs, opt_isExact = Some False, opt_metadata = md\<rparr> b)
          = prefix (prefix_route p rs b)
        \<and> prefix (prefix_route p rs b) = Some (slice_end 1 p)
        \<and> custom_route p \<lparr>opt_rules = rs, opt_isExact = Some False, opt_metadata = None\<rparr> b
          = prefix_route p rs b
        \<and> routeParams q (custom_route p \<lparr>opt_rules = rs, opt_isExact = Some False, opt_metadata = md\<rparr> b)
          = routeParams q (prefix_route p rs b))
   \<and> (\<not> endsWith p ''/*'' \<longrightarrow>
        matches q (custom_route p \<lparr>opt_rules = rs, opt_isExact = Some False, opt_metadata = md\<rparr> b)
          = matches q (prefix_route p rs b))
   \<and> isExact (custom_route p \<lparr>opt_rules = rs, opt_isExact = None, opt_metadata = md\<rparr> b)"
proof (intro conjI impI)
  assume "\<not> endsWith p ''/*''"
  then show "matches q (custom_route p \<lparr>opt_rules = rs, opt_isExact = Some False, opt_metadata = md\<rparr> b)
          = matches q (prefix_route p rs b)"
    by (rule matches_custom_prefix)
qed (simp_all add: custom_route_def prefix_route_def routeParams_def)

text \<open>The theorem on the pattern \<^verbatim>\<open>/docs/\<close> and the path \<^verbatim>\<open>/docs/a/b\<close>.\<close>

theorem route_prefix_registration_witness:
  "endsWith ''/docs/'' ''/'' \<and> \<not> endsWith ''/docs/'' ''/*''
   \<and> prefix (custom_route ''/docs/'' prefix_options fresh_builder) = Some ''/docs''
   \<and> custom_route ''/docs/'' prefix_options fresh_builder = prefix_route ''/docs/'' [] fresh_builder
   \<and> routeParams ''/docs/a/b'' (custom_route ''/docs/'' prefix_options fresh_builder)
       = routeParams ''/docs/a/b'' (prefix_route ''/docs/'' [] fresh_builder)
   \<and> matches ''/docs/a/b'' (custom_route ''/docs/'' prefix_options fresh_builder)
       = matches ''/docs/a/b'' (prefix_route ''/docs/'' [] fresh_builder)"
proof -
  note t = route_prefix_registration
             [of "''/docs/''" "[]" None fresh_builder "''/docs/a/b''", folded prefix_options_def]
  have h1: "endsWith ''/docs/'' ''/''" by (simp add: endsWith_def)
  have h2: "\<not> endsWith ''/docs/'' ''/*''" by (simp add: endsWith_def)
  note c1 = mp [OF t [THEN conjunct2, THEN conjunct2, THEN conjunct2, THEN conjunct2,
                      THEN conjunct1] h1]
  note c2 = mp [OF t [THEN conjunct2, THEN conjunct2, THEN conjunct2, THEN conjunct2,
                      THEN conjunct2, THEN conjunct1] h2]
  have v: "slice_end 1 ''/docs/'' = ''/docs''" by (simp add: slice_end_def)
  from h1 h2 c1 c2 v show ?thesis by simp
qed

text \<open>
  Claim C7 as stated fails. For \<^verbatim>\<open>/docs\<close>, \<^verbatim>\<open>prefix\<close> stores the prefix \<^verbatim>\<open>/docs\<close> and
  \<^verbatim>\<open>route\<close> stores none, so only the first binds \<^verbatim>\<open>*\<close> on \<^verbatim>\<open>/docs/a/b\<close>. For
  \<^verbatim>\<open>/docs/*\<close>, \<^verbatim>\<open>prefix\<close> stores \<^verbatim>\<open>/docs/*\<close> itself, the \<^verbatim>\<open>/*\<close> not stripped, and its
  route does not match \<^verbatim>\<open>/docs/a\<close>, which the route of \<^verbatim>\<open>route\<close> does.
\<close>

theorem route_prefix_registration_counterexample:
  "prefix (prefix_route ''/docs'' [] fresh_builder) = Some ''/docs''
   \<and> prefix (custom_route ''/docs'' prefix_options fresh_builder) = None
   \<and> routeParams ''/docs/a/b'' (prefix_route ''/docs'' [] fresh_builder) ''*'' = Some ''a/b''
   \<and> routeParams ''/docs/a/b'' (custom_route ''/docs'' prefix_options fresh_builder) ''*'' = None
   \<and> prefix (prefix_route ''/docs/*'' [] fresh_builder) = Some ''/docs/*''
   \<and> \<not> matches ''/docs/a'' (prefix_route ''/docs/*'' [] fresh_builder)
   \<and> matches ''/docs/a'' (custom_route ''/docs/*'' prefix_options fresh_builder)"
  by (simp add: extractParams_def wildcardParam_def includes_str_def
      startsWith_def endsWith_def custom_route_def prefix_route_def slice_end_def
      prefix_options_def matches_def matchRoute_def stripWildcard_def routeParams_def)



section \<open>Facts about the pipeline\<close>

lemma executePluginHook_swallowed:
  assumes "\<And>q. sel' (swallowed q) = map_option swallow (sel q)"
  shows "fst (executePluginHook hk sel' (map swallowed ps) (s, out'))
         = fst (executePluginHook hk sel ps (s, out))"
proof (induction ps arbitrary: s out out')
  case Nil
  then show ?case by simp
next
  case (Cons q ps)
  show ?case
  proof (cases "sel q")
    case None
    with assms[of q] Cons.IH show ?thesis by simp
  next
    case (Some h)
    obtain r s' where h: "h s = (r, s')" by (cases "h s")
    show ?thesis
    proof (cases r)
      case (Returned u)
      with Some h assms[of q] Cons.IH[of s' out' out] show ?thesis
        by (simp add: swallow_def)
    next
      case (Threw e)
      with Some h assms[of q] Cons.IH[of s' out' "out @ [(name q, hk, e)]"] show ?thesis
        by (simp add: swallow_def)
    qed
  qed
qed

lemma sel_swallowed:
  "hook_beforeRequest (swallowed q) = map_option swallow (hook_beforeRequest q)"
  "hook_beforeRule rule (swallowed q) = map_option swallow (hook_beforeRule rule q)"
  "hook_afterRule rule res (swallowed q) = map_option swallow (hook_afterRule rule res q)"
  "hook_afterRequest res (swallowed q) = map_option swallow (hook_afterRequest res q)"
  by (simp_all add: hook_beforeRequest_def hook_beforeRule_def hook_afterRule_def
      hook_afterRequest_def swallowed_def option.map_comp comp_def)


lemma observable_simp [simp]: "observable (a, s, out) = (a, s)"
  by (simp add: observable_def)

lemma handlePluginErrors_swallowed:
  "observable (handlePluginErrors (map swallowed ps) err (s, out'))
   = observable (handlePluginErrors ps err (s, out))"
proof (induction ps arbitrary: s out out')
  case Nil
  then show ?case by simp
next
  case (Cons q ps)
  have oe: "onError (swallowed q) = onError q" and nm: "name (swallowed q) = name q"
    by (simp_all add: swallowed_def)
  show ?case
  proof (cases "onError q")
    case None
    with oe Cons.IH show ?thesis by simp
  next
    case (Some f)
    obtain r s' where f: "f err s = (r, s')" by (cases "f err s")
    show ?thesis
    proof (cases r)
      case (Returned res)
      with Some f oe Cons.IH[of s' out' out] show ?thesis
        by (cases res) simp_all
    next
      case (Threw e)
      with Some f oe nm Cons.IH[of s' "out' @ [(name q, ''onError'', e)]" "out @ [(name q, ''onError'', e)]"]
      show ?thesis by simp
    qed
  qed
qed

lemma ruleLoop_swallowed:
  "observable (ruleLoop (map swallowed ps) rs (s, out'))
   = observable (ruleLoop ps rs (s, out))"
proof (induction rs arbitrary: s out out')
  case Nil
  obtain sa oa where a: "executePluginHook ''afterRequest'' (hook_afterRequest (Some Responses_next)) ps (s, out) = (sa, oa)"
    by (cases "executePluginHook ''afterRequest'' (hook_afterRequest (Some Responses_next)) ps (s, out)")
  obtain sb ob where b: "executePluginHook ''afterRequest'' (hook_afterRequest (Some Responses_next)) (map swallowed ps) (s, out') = (sb, ob)"
    by (cases "executePluginHook ''afterRequest'' (hook_afterRequest (Some Responses_next)) (map swallowed ps) (s, out')")
  from executePluginHook_swallowed[of "hook_afterRequest (Some Responses_next)" "hook_afterRequest (Some Responses_next)" "''afterRequest''" ps s out' out, OF sel_swallowed(4)] a b
  have "sb = sa" by simp
  with a b show ?case by (simp add: Let_def)
next
  case (Cons rule rs)
  obtain s1 o1 where a1: "executePluginHook ''beforeRule'' (hook_beforeRule rule) ps (s, out) = (s1, o1)"
    by (cases "executePluginHook ''beforeRule'' (hook_beforeRule rule) ps (s, out)")
  obtain s1' o1' where b1: "executePluginHook ''beforeRule'' (hook_beforeRule rule) (map swallowed ps) (s, out') = (s1', o1')"
    by (cases "executePluginHook ''beforeRule'' (hook_beforeRule rule) (map swallowed ps) (s, out')")
  from executePluginHook_swallowed[of "hook_beforeRule rule" "hook_beforeRule rule" "''beforeRule''" ps s out' out, OF sel_swallowed(2)] a1 b1
  have e1: "s1' = s1" by simp
  obtain r s2 where r: "rule s1 = (r, s2)" by (cases "rule s1")
  show ?case
  proof (cases r)
    case (Threw e)
    with a1 b1 e1 r show ?thesis by simp
  next
    case (Returned result)
    obtain s3 o3 where a3: "executePluginHook ''afterRule'' (hook_afterRule rule result) ps (s2, o1) = (s3, o3)"
      by (cases "executePluginHook ''afterRule'' (hook_afterRule rule result) ps (s2, o1)")
    obtain s3' o3' where b3: "executePluginHook ''afterRule'' (hook_afterRule rule result) (map swallowed ps) (s2, o1') = (s3', o3')"
      by (cases "executePluginHook ''afterRule'' (hook_afterRule rule result) (map swallowed ps) (s2, o1')")
    from executePluginHook_swallowed[of "hook_afterRule rule result" "hook_afterRule rule result" "''afterRule''" ps s2 o1' o1, OF sel_swallowed(3)] a3 b3
    have e3: "s3' = s3" by simp
    show ?thesis
    proof (cases result)
      case None
      with Returned a1 b1 e1 r a3 b3 e3 Cons.IH[of s3 o3' o3] show ?thesis by simp
    next
      case (Some resp)
      obtain s4 o4 where a4: "executePluginHook ''afterRequest'' (hook_afterRequest result) ps (s3, o3) = (s4, o4)"
        by (cases "executePluginHook ''afterRequest'' (hook_afterRequest result) ps (s3, o3)")
      obtain s4' o4' where b4: "executePluginHook ''afterRequest'' (hook_afterRequest result) (map swallowed ps) (s3, o3') = (s4', o4')"
        by (cases "executePluginHook ''afterRequest'' (hook_afterRequest result) (map swallowed ps) (s3, o3')")
      from executePluginHook_swallowed[of "hook_afterRequest result" "hook_afterRequest result" "''afterRequest''" ps s3 o3' o3, OF sel_swallowed(4)] a4 b4
      have e4: "s4' = s4" by simp
      with Some Returned a1 b1 e1 r a3 b3 e3 a4 b4 show ?thesis by simp
    qed
  qed
qed


lemma tryBlock_swallowed:
  "observable (tryBlock (b\<lparr>plugins := map swallowed (plugins b)\<rparr>) rq (s, out'))
   = observable (tryBlock b rq (s, out))"
proof -
  let ?b' = "b\<lparr>plugins := map swallowed (plugins b)\<rparr>"
  obtain s1 o1 where a1: "executePluginHook ''beforeRequest'' hook_beforeRequest (plugins b) (s, out) = (s1, o1)"
    by (cases "executePluginHook ''beforeRequest'' hook_beforeRequest (plugins b) (s, out)")
  obtain s1' o1' where b1: "executePluginHook ''beforeRequest'' hook_beforeRequest (map swallowed (plugins b)) (s, out') = (s1', o1')"
    by (cases "executePluginHook ''beforeRequest'' hook_beforeRequest (map swallowed (plugins b)) (s, out')")
  from executePluginHook_swallowed[of hook_beforeRequest hook_beforeRequest "''beforeRequest''" "plugins b" s out' out, OF sel_swallowed(1)] a1 b1
  have e1: "s1' = s1" by simp
  show ?thesis
  proof (cases "findMatchingRoute (routes b) (pathname rq)")
    case None
    obtain sa oa where a: "executePluginHook ''afterRequest'' (hook_afterRequest (Some Responses_next)) (plugins b) (s1, o1) = (sa, oa)"
      by (cases "executePluginHook ''afterRequest'' (hook_afterRequest (Some Responses_next)) (plugins b) (s1, o1)")
    obtain sb ob where b: "executePluginHook ''afterRequest'' (hook_afterRequest (Some Responses_next)) (map swallowed (plugins b)) (s1, o1') = (sb, ob)"
      by (cases "executePluginHook ''afterRequest'' (hook_afterRequest (Some Responses_next)) (map swallowed (plugins b)) (s1, o1')")
    from executePluginHook_swallowed[of "hook_afterRequest (Some Responses_next)" "hook_afterRequest (Some Responses_next)" "''afterRequest''" "plugins b" s1 o1' o1, OF sel_swallowed(4)] a b
    have "sb = sa" by simp
    with None a1 b1 e1 a b show ?thesis by (simp add: tryBlock_def Let_def)
  next
    case (Some rt)
    obtain c w where cw: "s1 = (c, w)" by (cases s1)
    let ?c = "c\<lparr>params := extractParams (pathname rq) (pattern rt) (isExact rt) (prefix rt)\<rparr>"
    let ?c2 = "?c\<lparr>metadata := metadata ?c ++ route_metadata rt\<rparr>"
    obtain r s2 where f: "fetchUserFn b rq (?c2, w) = (r, s2)" by (cases "fetchUserFn b rq (?c2, w)")
    show ?thesis
    proof (cases r)
      case (Threw e)
      with Some a1 b1 e1 cw f show ?thesis by (simp add: tryBlock_def Let_def)
    next
      case (Returned d)
      obtain c3 w3 where s2: "s2 = (c3, w3)" by (cases s2)
      from Returned Some a1 b1 e1 cw f s2
        ruleLoop_swallowed[of "plugins b" "rules rt" "(c3\<lparr>data := d\<rparr>, w3)" o1' o1]
      show ?thesis by (simp add: tryBlock_def Let_def)
    qed
  qed
qed

lemma catchBlock_swallowed:
  "observable (catchBlock (b\<lparr>plugins := map swallowed (plugins b)\<rparr>) rq e (s, out'))
   = observable (catchBlock b rq e (s, out))"
proof -
  obtain r1 s1 o1 where a: "handlePluginErrors (plugins b) e (s, out) = (r1, s1, o1)"
    by (cases "handlePluginErrors (plugins b) e (s, out)")
  obtain r2 s2 o2 where b: "handlePluginErrors (map swallowed (plugins b)) e (s, out') = (r2, s2, o2)"
    by (cases "handlePluginErrors (map swallowed (plugins b)) e (s, out')")
  from handlePluginErrors_swallowed[of "plugins b" e s out' out] a b
  have "r2 = r1" "s2 = s1" by simp_all
  with a b show ?thesis by (cases r1) (simp_all add: catchBlock_def)
qed

lemma build_swallowed:
  "observable (build (b\<lparr>plugins := map swallowed (plugins b)\<rparr>) rq w)
   = observable (build b rq w)"
proof -
  let ?s = "(\<lparr> data = None, req = rq, path = pathname rq, params = Map.empty,
                      metadata = defaultMetadata b \<rparr>, w)"
  obtain r1 s1 o1 where a: "tryBlock b rq (?s, []) = (r1, s1, o1)"
    by (cases "tryBlock b rq (?s, [])")
  obtain r2 s2 o2 where b: "tryBlock (b\<lparr>plugins := map swallowed (plugins b)\<rparr>) rq (?s, []) = (r2, s2, o2)"
    by (cases "tryBlock (b\<lparr>plugins := map swallowed (plugins b)\<rparr>) rq (?s, [])")
  from tryBlock_swallowed[of b rq ?s "[]" "[]"] a b
  have e: "r2 = r1" "s2 = s1" by simp_all
  show ?thesis
  proof (cases r1)
    case (Returned x)
    with a b e show ?thesis by (simp add: build_def)
  next
    case (Threw x)
    with a b e catchBlock_swallowed[of b rq x s1 o2 o1] show ?thesis by (simp add: build_def)
  qed
qed

lemma tryBlock_enterRoute:
  "tryBlock b rq st0 =
     (case enterRoute b rq st0 of
        NoRoute st \<Rightarrow>
          (Returned Next,
           executePluginHook ''afterRequest'' (hook_afterRequest (Some Next)) (plugins b) st)
      | FetchThrew e st \<Rightarrow> (Threw e, st)
      | Entered rt st \<Rightarrow> ruleLoop (plugins b) (rules rt) st)"
  by (simp add: tryBlock_def enterRoute_def Let_def Responses_next_def
           split: prod.splits option.splits outcome.splits)

lemma ruleLoop_ruleStep:
  "ruleLoop ps (r # rest) st =
     (case ruleStep ps r st of
        (Threw e, st') \<Rightarrow> (Threw e, st')
      | (Returned (Some resp), st') \<Rightarrow>
          (Returned resp,
           executePluginHook ''afterRequest'' (hook_afterRequest (Some resp)) ps st')
      | (Returned None, st') \<Rightarrow> ruleLoop ps rest st')"
  by (simp add: ruleStep_def Let_def split: prod.splits option.splits outcome.splits)

lemma ruleLoop_nullRun:
  "nullRun ps xs st = Some st1 \<Longrightarrow> ruleLoop ps (xs @ zs) st = ruleLoop ps zs st1"
proof (induction xs arbitrary: st)
  case Nil
  then show ?case by simp
next
  case (Cons x xs)
  obtain q st' where q: "ruleStep ps x st = (q, st')" by (cases "ruleStep ps x st")
  with Cons.prems have qn: "q = Returned None" and n: "nullRun ps xs st' = Some st1"
    by (auto split: outcome.splits option.splits)
  from Cons.IH[OF n] q qn show ?case
    by (simp only: append_Cons ruleLoop_ruleStep) simp
qed

lemma ruleLoop_all_null_run:
  "nullRun ps xs st = Some st1 \<Longrightarrow>
   ruleLoop ps xs st
     = (Returned Next,
        executePluginHook ''afterRequest'' (hook_afterRequest (Some Next)) ps st1)"
  using ruleLoop_nullRun[of ps xs st st1 "[]"]
  by (simp add: Responses_next_def Let_def)

lemma ruleLoop_decides:
  assumes "nullRun ps xs st = Some st1"
    and "ruleStep ps r st1 = (Returned (Some resp), st2)"
  shows "ruleLoop ps (xs @ r # ys) st
     = (Returned resp,
        executePluginHook ''afterRequest'' (hook_afterRequest (Some resp)) ps st2)"
  using ruleLoop_nullRun[OF assms(1), of "r # ys"] assms(2)
  by (simp only: ruleLoop_ruleStep) simp

lemma ruleLoop_throws_run:
  assumes "nullRun ps xs st = Some st1"
    and "ruleStep ps r st1 = (Threw e, st2)"
  shows "ruleLoop ps (xs @ r # ys) st = (Threw e, st2)"
  using ruleLoop_nullRun[OF assms(1), of "r # ys"] assms(2)
  by (simp only: ruleLoop_ruleStep) simp

lemma nullRun_cases:
  "nullRun ps zs st \<noteq> None
   \<or> (\<exists>xs r ys st1 q st2. zs = xs @ r # ys \<and> nullRun ps xs st = Some st1
         \<and> ruleStep ps r st1 = (q, st2) \<and> q \<noteq> Returned None)"
proof (induction zs arbitrary: st)
  case Nil
  then show ?case by simp
next
  case (Cons z zs)
  obtain q st' where q: "ruleStep ps z st = (q, st')" by (cases "ruleStep ps z st")
  show ?case
  proof (cases "q = Returned None")
    case False
    have "z # zs = [] @ z # zs \<and> nullRun ps [] st = Some st
         \<and> ruleStep ps z st = (q, st') \<and> q \<noteq> Returned None"
      using q False by simp
    then show ?thesis by blast
  next
    case True
    from Cons.IH[of st'] show ?thesis
    proof
      assume "nullRun ps zs st' \<noteq> None"
      with q True show ?thesis by simp
    next
      assume "\<exists>xs r ys st1 q st2. zs = xs @ r # ys \<and> nullRun ps xs st' = Some st1
         \<and> ruleStep ps r st1 = (q, st2) \<and> q \<noteq> Returned None"
      then obtain xs r ys st1 q' st2 where
        h: "zs = xs @ r # ys" "nullRun ps xs st' = Some st1"
           "ruleStep ps r st1 = (q', st2)" "q' \<noteq> Returned None"
        by blast
      have "z # zs = (z # xs) @ r # ys \<and> nullRun ps (z # xs) st = Some st1
         \<and> ruleStep ps r st1 = (q', st2) \<and> q' \<noteq> Returned None"
        using h q True by simp
      then show ?thesis by blast
    qed
  qed
qed

lemma enterRoute_resolved:
  "enterRoute b rq st0 = Entered rt st \<Longrightarrow> findMatchingRoute (routes b) (pathname rq) = Some rt"
  by (auto simp: enterRoute_def Let_def split: prod.splits option.splits outcome.splits)

lemma enterRoute_other_rules:
  assumes "enterRoute b rq st0 = Entered rt st"
  shows "enterRoute (b\<lparr>routes := [rt\<lparr>rules := zs\<rparr>]\<rparr>) rq st0 = Entered (rt\<lparr>rules := zs\<rparr>) st"
proof -
  from enterRoute_resolved[OF assms]
  have m: "findMatchingRoute (routes b) (pathname rq) = Some rt" .
  have "matches (pathname rq) (rt\<lparr>rules := zs\<rparr>)"
    using findMatchingRoute_matches[OF m] by (simp add: matches_def)
  then have m': "findMatchingRoute [rt\<lparr>rules := zs\<rparr>] (pathname rq) = Some (rt\<lparr>rules := zs\<rparr>)"
    by (simp add: findMatchingRoute_def)
  from assms m m' show ?thesis
    by (auto simp: enterRoute_def Let_def split: prod.splits option.splits outcome.splits)
qed


lemma build_enterRoute:
  "build b rq w =
     (case enterRoute b rq ((initialContext b rq, w), []) of
        NoRoute st \<Rightarrow>
          (Next, executePluginHook ''afterRequest'' (hook_afterRequest (Some Next)) (plugins b) st)
      | FetchThrew e st \<Rightarrow> catchBlock b rq e st
      | Entered rt st \<Rightarrow>
          (case ruleLoop (plugins b) (rules rt) st of
             (Returned result, st') \<Rightarrow> (result, st')
           | (Threw e, st') \<Rightarrow> catchBlock b rq e st'))"
  by (simp add: build_def initialContext_def tryBlock_enterRoute split: entry.splits)

lemma build_decides:
  assumes e: "enterRoute b rq ((initialContext b rq, w), []) = Entered rt st"
    and rs: "rules rt = xs @ r # ys"
    and n: "nullRun (plugins b) xs st = Some st1"
    and d: "ruleStep (plugins b) r st1 = (Returned (Some resp), st2)"
  shows "build b rq w
           = (resp, executePluginHook ''afterRequest'' (hook_afterRequest (Some resp))
                      (plugins b) st2)"
    and "build (b\<lparr>routes := [rt\<lparr>rules := xs @ r # ys'\<rparr>]\<rparr>) rq w = build b rq w"
proof -
  show 1: "build b rq w
           = (resp, executePluginHook ''afterRequest'' (hook_afterRequest (Some resp))
                      (plugins b) st2)"
    using e rs ruleLoop_decides[OF n d, of ys] by (simp add: build_enterRoute)
  have i: "initialContext (b\<lparr>routes := [rt\<lparr>rules := xs @ r # ys'\<rparr>]\<rparr>) rq = initialContext b rq"
    by (simp add: initialContext_def)
  from enterRoute_other_rules[OF e, of "xs @ r # ys'"] ruleLoop_decides[OF n d, of ys'] 1
  show "build (b\<lparr>routes := [rt\<lparr>rules := xs @ r # ys'\<rparr>]\<rparr>) rq w = build b rq w"
    by (simp add: build_enterRoute i)
qed

lemma build_passes:
  assumes e: "enterRoute b rq ((initialContext b rq, w), []) = Entered rt st"
    and n: "nullRun (plugins b) (rules rt) st = Some st1"
  shows "build b rq w
           = (Next, executePluginHook ''afterRequest'' (hook_afterRequest (Some Next))
                      (plugins b) st1)"
  using e ruleLoop_all_null_run[OF n] by (simp add: build_enterRoute)

lemma build_default_policy:
  assumes "tryBlock b rq ((initialContext b rq, w), []) = (Threw e, st)"
    and "fst (handlePluginErrors (plugins b) e st) = None"
  shows "fst (build b rq w) = (if isAuthPath (authPaths b) (pathname rq) then Next
                               else Redirect ''/sign-in'' (url rq))"
  using assms
  by (cases "handlePluginErrors (plugins b) e st")
     (simp add: build_def initialContext_def catchBlock_def Responses_next_def Responses_redirect_def)

lemma isAuthPath_iff:
  "isAuthPath aps p = (\<exists>a\<in>set aps. p = a \<or> (endsWith a ''/*'' \<and> startsWith p (slice_end 2 a)))"
proof -
  have "startsWith a (slice_end 2 a)" for a
    by (simp add: startsWith_def slice_end_def)
  then show ?thesis
    by (auto simp: isAuthPath_def list_ex_iff)
qed

lemma handlePluginErrors_none:
  assumes "\<forall>p\<in>set ps. \<forall>f s r. onError p = Some f \<longrightarrow> fst (f e s) \<noteq> Returned (Some r)"
  shows "fst (handlePluginErrors ps e st) = None"
  using assms
proof (induction ps arbitrary: st)
  case Nil
  then show ?case by (cases st) simp
next
  case (Cons p ps)
  obtain s out where st: "st = (s, out)" by (cases st)
  from Cons.prems have rest: "\<forall>p\<in>set ps. \<forall>f s r. onError p = Some f \<longrightarrow> fst (f e s) \<noteq> Returned (Some r)"
    by simp
  show ?case
  proof (cases "onError p")
    case None
    with st Cons.IH[OF rest] show ?thesis by simp
  next
    case (Some f)
    obtain q s' where q: "f e s = (q, s')" by (cases "f e s")
    from Cons.prems Some have "\<forall>r. fst (f e s) \<noteq> Returned (Some r)"
      by (simp del: split_paired_All)
    with q have nr: "\<forall>r. q \<noteq> Returned (Some r)" by simp
    show ?thesis
    proof (cases q)
      case (Returned res)
      with nr have "res = None" by (cases res) auto
      with Returned Some q st Cons.IH[OF rest] show ?thesis by simp
    next
      case (Threw pe)
      with Some q st Cons.IH[OF rest] show ?thesis by simp
    qed
  qed
qed

lemma tryBlock_fetch_throws:
  "enterRoute b rq st0 = FetchThrew e st \<Longrightarrow> tryBlock b rq st0 = (Threw e, st)"
  by (simp add: tryBlock_enterRoute)

lemma tryBlock_rule_throws:
  assumes "enterRoute b rq st0 = Entered rt st"
    and "rules rt = xs @ r # ys"
    and "nullRun (plugins b) xs st = Some st1"
    and "ruleStep (plugins b) r st1 = (Threw e, st2)"
  shows "tryBlock b rq st0 = (Threw e, st2)"
  using assms(1,2) ruleLoop_throws_run[OF assms(3,4), of ys]
  by (simp add: tryBlock_enterRoute)

lemma ruleLoop_threw:
  assumes "fst (ruleLoop ps zs st) = Threw e"
  shows "\<exists>xs r ys st1 st2. zs = xs @ r # ys \<and> nullRun ps xs st = Some st1
           \<and> ruleStep ps r st1 = (Threw e, st2)"
proof -
  from nullRun_cases[of ps zs st] show ?thesis
  proof
    assume "nullRun ps zs st \<noteq> None"
    then obtain st1 where "nullRun ps zs st = Some st1" by blast
    from ruleLoop_all_null_run[OF this] assms show ?thesis by simp
  next
    assume "\<exists>xs r ys st1 q st2. zs = xs @ r # ys \<and> nullRun ps xs st = Some st1
         \<and> ruleStep ps r st1 = (q, st2) \<and> q \<noteq> Returned None"
    then obtain xs r ys st1 q st2 where
      h: "zs = xs @ r # ys" "nullRun ps xs st = Some st1"
         "ruleStep ps r st1 = (q, st2)" "q \<noteq> Returned None"
      by blast
    show ?thesis
    proof (cases q)
      case (Threw e')
      from ruleLoop_throws_run[OF h(2), of r e' st2 ys] h(1,3) Threw assms
      have "e' = e" by simp
      with h Threw show ?thesis by blast
    next
      case (Returned res)
      with h(4) obtain resp where "res = Some resp" by (cases res) auto
      with ruleLoop_decides[OF h(2), of r resp st2 ys] h(1,3) Returned assms
      show ?thesis by simp
    qed
  qed
qed

lemma tryBlock_threw:
  assumes "fst (tryBlock b rq st0) = Threw e"
  shows "(\<exists>st. enterRoute b rq st0 = FetchThrew e st)
       \<or> (\<exists>rt st xs r ys st1 st2. enterRoute b rq st0 = Entered rt st
             \<and> rules rt = xs @ r # ys \<and> nullRun (plugins b) xs st = Some st1
             \<and> ruleStep (plugins b) r st1 = (Threw e, st2))"
proof (cases "enterRoute b rq st0")
  case (NoRoute st)
  with assms show ?thesis by (simp add: tryBlock_enterRoute)
next
  case (FetchThrew e' st)
  with assms show ?thesis by (simp add: tryBlock_enterRoute)
next
  case (Entered rt st)
  with assms have "fst (ruleLoop (plugins b) (rules rt) st) = Threw e"
    by (simp add: tryBlock_enterRoute)
  from ruleLoop_threw[OF this] Entered show ?thesis by blast
qed

lemmas example_defs = member_builder_def guest_builder_def rule_isLoggedIn_def
  pass_builder_def failing_builder_def
  plugin_builder_def fetchless_builder_def account_request_def api_request_def
  admin_request_def journal_options_def rule_pass_def rule_deny_def rule_late_def
  rule_boom_def journal_def faulty_plugin_def audit_plugin_def faulty_hook_def
  reporter_plugin_def exact_def
  exact_route_def prefix_reg_def prefix_route_def use_def new_MiddlewareBuilder_def

lemmas engine_defs = build_def tryBlock_def catchBlock_def findMatchingRoute_def
  matches_def matchRoute_def hook_beforeRequest_def hook_beforeRule_def
  hook_afterRule_def hook_afterRequest_def Responses_next_def Responses_redirect_def
  isAuthPath_def startsWith_def endsWith_def slice_end_def stripWildcard_def
  initialContext_def enterRoute_def ruleStep_def

lemmas params_defs = extractParams_def wildcardParam_def includes_str_def


section \<open>The rule chain\<close>

text \<open>
  Claim C4. Take any run of the handler that enters a route: the request resolves to the
  route \<open>rt\<close> and the user fetch returns, leaving the state \<open>st\<close>. If the route's rules are
  \<open>xs @ r # ys\<close>, the rules of \<open>xs\<close>, run in this order from \<open>st\<close>, each return null in the
  state the one before left, and \<open>r\<close>, run in the state \<open>st1\<close> they leave, returns the
  response \<open>resp\<close>, then the handler returns \<open>resp\<close> with the state that the
  \<^verbatim>\<open>afterRequest\<close> hooks make of the one \<open>r\<close> left, and its whole run (response, final
  context and state, console output) is the run of the builder whose one route has any
  other rules \<open>ys'\<close>, or none, after \<open>r\<close>: the rules after \<open>r\<close> are not invoked. If all
  the route's rules return null in this run, the handler returns the pass-through
  response. Nothing is assumed of what a rule does in states the run does not reach. Every
  run of a rule list is of one of these kinds or has a first rule that throws; a run
  enters a route only if the request resolves to it, and a request that resolves to a
  route enters it unless the user fetch throws.
\<close>

theorem rule_chain_short_circuit:
  "(enterRoute b rq ((initialContext b rq, w), []) = Entered rt st
      \<and> rules rt = xs @ r # ys
      \<and> nullRun (plugins b) xs st = Some st1
      \<and> ruleStep (plugins b) r st1 = (Returned (Some resp), st2)
     \<longrightarrow> build b rq w
           = (resp, executePluginHook ''afterRequest'' (hook_afterRequest (Some resp))
                      (plugins b) st2)
         \<and> (\<forall>ys'. build (b\<lparr>routes := [rt\<lparr>rules := xs @ r # ys'\<rparr>]\<rparr>) rq w = build b rq w))
   \<and> (enterRoute b rq ((initialContext b rq, w), []) = Entered rt st
      \<and> nullRun (plugins b) (rules rt) st = Some st1
     \<longrightarrow> build b rq w
           = (Next, executePluginHook ''afterRequest'' (hook_afterRequest (Some Next))
                      (plugins b) st1))
   \<and> (nullRun ps zs s0 \<noteq> None
      \<or> (\<exists>xs r ys st1 q st2. zs = xs @ r # ys \<and> nullRun ps xs s0 = Some st1
            \<and> ruleStep ps r st1 = (q, st2) \<and> q \<noteq> Returned None))
   \<and> (enterRoute b rq st0 = Entered rt st
     \<longrightarrow> findMatchingRoute (routes b) (pathname rq) = Some rt)
   \<and> (findMatchingRoute (routes b) (pathname rq) = Some rt
     \<longrightarrow> (\<exists>st. enterRoute b rq st0 = Entered rt st)
         \<or> (\<exists>e st. enterRoute b rq st0 = FetchThrew e st))"
proof (intro conjI impI allI)
  assume a: "enterRoute b rq ((initialContext b rq, w), []) = Entered rt st
      \<and> rules rt = xs @ r # ys
      \<and> nullRun (plugins b) xs st = Some st1
      \<and> ruleStep (plugins b) r st1 = (Returned (Some resp), st2)"
  then have e: "enterRoute b rq ((initialContext b rq, w), []) = Entered rt st"
    and rs: "rules rt = xs @ r # ys"
    and n: "nullRun (plugins b) xs st = Some st1"
    and d: "ruleStep (plugins b) r st1 = (Returned (Some resp), st2)"
    by blast+
  show "build b rq w
           = (resp, executePluginHook ''afterRequest'' (hook_afterRequest (Some resp))
                      (plugins b) st2)"
    by (rule build_decides(1) [OF e rs n d])
  show "build (b\<lparr>routes := [rt\<lparr>rules := xs @ r # ys'\<rparr>]\<rparr>) rq w = build b rq w" for ys'
    by (rule build_decides(2) [OF e rs n d])
next
  assume "enterRoute b rq ((initialContext b rq, w), []) = Entered rt st
      \<and> nullRun (plugins b) (rules rt) st = Some st1"
  then show "build b rq w
           = (Next, executePluginHook ''afterRequest'' (hook_afterRequest (Some Next))
                      (plugins b) st1)"
    using build_passes[of b rq w rt st st1] by blast
next
  show "nullRun ps zs s0 \<noteq> None
      \<or> (\<exists>xs r ys st1 q st2. zs = xs @ r # ys \<and> nullRun ps xs s0 = Some st1
            \<and> ruleStep ps r st1 = (q, st2) \<and> q \<noteq> Returned None)"
    by (rule nullRun_cases)
next
  assume "enterRoute b rq st0 = Entered rt st"
  then show "findMatchingRoute (routes b) (pathname rq) = Some rt"
    by (rule enterRoute_resolved)
next
  assume "findMatchingRoute (routes b) (pathname rq) = Some rt"
  then show "(\<exists>st. enterRoute b rq st0 = Entered rt st)
         \<or> (\<exists>e st. enterRoute b rq st0 = FetchThrew e st)"
    by (auto simp: enterRoute_def Let_def split: prod.splits option.splits outcome.splits)
qed

text \<open>
  The theorem on \<^verbatim>\<open>exact('/account', isLoggedIn, R2, R3)\<close>, where \<^verbatim>\<open>isLoggedIn\<close>
  returns null for a signed-in user and a redirect to \<^verbatim>\<open>/sign-in\<close> otherwise, R2 returns
  a 403 response and R3 would throw. With a user the handler returns R2's response,
  exactly as it does with no rule after R2, and the journal holds the lines of
  \<^verbatim>\<open>isLoggedIn\<close> and R2 only. Without a user the first rule decides and the journal holds
  its line only. With the rules \<^verbatim>\<open>R1, R1\<close> the handler passes through.
\<close>

theorem rule_chain_short_circuit_witness:
  "build member_builder account_request []
     = (Json ''denied'' 403,
        ((initialContext member_builder account_request)\<lparr>data := Some ()\<rparr>,
         [''isLoggedIn'', ''R2'']), [])
   \<and> build (member_builder\<lparr>routes :=
         [(exact_route ''/account'' [rule_isLoggedIn, rule_deny, rule_late]
             (new_MiddlewareBuilder journal_options))
            \<lparr>rules := [rule_isLoggedIn] @ rule_deny # []\<rparr>]\<rparr>) account_request []
       = build member_builder account_request []
   \<and> build guest_builder account_request []
       = (Redirect ''/sign-in'' ''http://localhost:3000'',
          (initialContext guest_builder account_request, [''isLoggedIn'']), [])
   \<and> build pass_builder account_request []
       = (Next, (initialContext pass_builder account_request, [''R1'', ''R1'']), [])"
proof -
  let ?rt = "exact_route ''/account'' [rule_isLoggedIn, rule_deny, rule_late]
               (new_MiddlewareBuilder journal_options)"
  let ?rt2 = "exact_route ''/account'' [rule_pass, rule_pass]
               (new_MiddlewareBuilder journal_options)"
  let ?c = "(initialContext member_builder account_request)\<lparr>data := Some ()\<rparr>"
  let ?g = "initialContext guest_builder account_request"
  let ?p = "initialContext pass_builder account_request"
  \<comment> \<open>a signed-in user: the first rule returns null, the second decides\<close>
  have e: "enterRoute member_builder account_request
             ((initialContext member_builder account_request, []), [])
           = Entered ?rt ((?c, []), [])"
    by (simp add: example_defs engine_defs params_defs Let_def)
  have rs: "rules ?rt = [rule_isLoggedIn] @ rule_deny # [rule_late]"
    by (simp add: exact_route_def)
  have n: "nullRun (plugins member_builder) [rule_isLoggedIn] ((?c, []), [])
           = Some ((?c, [''isLoggedIn'']), [])"
    by (simp add: example_defs engine_defs Let_def)
  have d: "ruleStep (plugins member_builder) rule_deny ((?c, [''isLoggedIn'']), [])
           = (Returned (Some (Json ''denied'' 403)), (?c, [''isLoggedIn'', ''R2'']), [])"
    by (simp add: example_defs engine_defs Let_def)
  note t = rule_chain_short_circuit
             [where b = member_builder and rq = account_request and w = "[]" and rt = ?rt
                and st = "((?c, []), [])" and xs = "[rule_isLoggedIn]" and r = rule_deny
                and ys = "[rule_late]" and ?st1.0 = "((?c, [''isLoggedIn'']), [])"
                and resp = "Json ''denied'' 403"
                and ?st2.0 = "((?c, [''isLoggedIn'', ''R2'']), [])"]
  have c: "build member_builder account_request []
             = (Json ''denied'' 403,
                executePluginHook ''afterRequest''
                  (hook_afterRequest (Some (Json ''denied'' 403))) (plugins member_builder)
                  ((?c, [''isLoggedIn'', ''R2'']), []))
           \<and> (\<forall>ys'. build (member_builder\<lparr>routes :=
                  [?rt\<lparr>rules := [rule_isLoggedIn] @ rule_deny # ys'\<rparr>]\<rparr>) account_request []
                = build member_builder account_request [])"
    by (rule mp [OF t [THEN conjunct1]]) (intro conjI e rs n d)
  have pm: "plugins member_builder = []" "plugins guest_builder = []" "plugins pass_builder = []"
    by (simp_all add: example_defs)
  from c have c1: "build member_builder account_request []
             = (Json ''denied'' 403, (?c, [''isLoggedIn'', ''R2'']), [])"
    by (simp add: pm)
  from c have c2: "build (member_builder\<lparr>routes :=
                  [?rt\<lparr>rules := [rule_isLoggedIn] @ rule_deny # []\<rparr>]\<rparr>) account_request []
                = build member_builder account_request []"
    by blast
  \<comment> \<open>no user: the same first rule decides\<close>
  have e': "enterRoute guest_builder account_request ((?g, []), []) = Entered ?rt ((?g, []), [])"
    by (simp add: example_defs engine_defs params_defs Let_def)
  have rs': "rules ?rt = [] @ rule_isLoggedIn # [rule_deny, rule_late]"
    by (simp add: exact_route_def)
  have n': "nullRun (plugins guest_builder) [] ((?g, []), []) = Some ((?g, []), [])"
    by simp
  have d': "ruleStep (plugins guest_builder) rule_isLoggedIn ((?g, []), [])
           = (Returned (Some (Redirect ''/sign-in'' ''http://localhost:3000'')),
              (?g, [''isLoggedIn'']), [])"
    by (simp add: example_defs engine_defs Let_def)
  note t' = rule_chain_short_circuit
             [where b = guest_builder and rq = account_request and w = "[]" and rt = ?rt
                and st = "((?g, []), [])" and xs = "[]" and r = rule_isLoggedIn
                and ys = "[rule_deny, rule_late]" and ?st1.0 = "((?g, []), [])"
                and resp = "Redirect ''/sign-in'' ''http://localhost:3000''"
                and ?st2.0 = "((?g, [''isLoggedIn'']), [])"]
  have g: "build guest_builder account_request []
             = (Redirect ''/sign-in'' ''http://localhost:3000'',
                executePluginHook ''afterRequest''
                  (hook_afterRequest (Some (Redirect ''/sign-in'' ''http://localhost:3000'')))
                  (plugins guest_builder) ((?g, [''isLoggedIn'']), []))"
    by (rule mp [OF t' [THEN conjunct1], THEN conjunct1]) (intro conjI e' rs' n' d')
  then have g1: "build guest_builder account_request []
       = (Redirect ''/sign-in'' ''http://localhost:3000'', (?g, [''isLoggedIn'']), [])"
    by (simp add: pm)
  \<comment> \<open>every rule returns null\<close>
  have e2: "enterRoute pass_builder account_request ((?p, []), []) = Entered ?rt2 ((?p, []), [])"
    by (simp add: example_defs engine_defs params_defs Let_def)
  have n2: "nullRun (plugins pass_builder) (rules ?rt2) ((?p, []), [])
            = Some ((?p, [''R1'', ''R1'']), [])"
    by (simp add: example_defs engine_defs Let_def)
  note t2 = rule_chain_short_circuit
             [where b = pass_builder and rq = account_request and w = "[]" and rt = ?rt2
                and st = "((?p, []), [])" and ?st1.0 = "((?p, [''R1'', ''R1'']), [])"]
  have p: "build pass_builder account_request []
           = (Next, executePluginHook ''afterRequest'' (hook_afterRequest (Some Next))
                      (plugins pass_builder) ((?p, [''R1'', ''R1'']), []))"
    by (rule mp [OF t2 [THEN conjunct2, THEN conjunct1]]) (intro conjI e2 n2)
  then have p1: "build pass_builder account_request []
       = (Next, (?p, [''R1'', ''R1'']), [])"
    by (simp add: pm)
  from c1 c2 g1 p1 show ?thesis by blast
qed


section \<open>The default error policy\<close>

text \<open>
  Claim C5. When the \<^verbatim>\<open>try\<close> block of the handler throws and no plugin's \<^verbatim>\<open>onError\<close>
  supplies a result, the handler passes through if the request path is an auth path and
  redirects to \<^verbatim>\<open>/sign-in\<close> (resolved against the request's URL) otherwise. A path is an
  auth path when it equals a configured entry, or when it starts with what an entry
  ending in \<^verbatim>\<open>/*\<close> has before that \<^verbatim>\<open>/*\<close>. The \<^verbatim>\<open>try\<close> block throws when the user fetch
  of the resolved route throws, and when, the rules before it having returned null in the
  run, a rule of the resolved route throws; it throws in no other way. No \<^verbatim>\<open>onError\<close>
  supplies a result when each plugin's \<^verbatim>\<open>onError\<close>, if it has one, returns null or
  throws.
\<close>

theorem default_error_policy:
  "(fst (tryBlock b rq ((initialContext b rq, w), [])) = Threw e
      \<and> fst (handlePluginErrors (plugins b) e
                (snd (tryBlock b rq ((initialContext b rq, w), [])))) = None
     \<longrightarrow> fst (build b rq w)
           = (if isAuthPath (authPaths b) (pathname rq) then Next
              else Redirect ''/sign-in'' (url rq)))
   \<and> isAuthPath aps p
       = (\<exists>a\<in>set aps. p = a \<or> (endsWith a ''/*'' \<and> startsWith p (slice_end 2 a)))
   \<and> (enterRoute b rq st0 = FetchThrew e st \<longrightarrow> tryBlock b rq st0 = (Threw e, st))
   \<and> (enterRoute b rq st0 = Entered rt st
      \<and> rules rt = xs @ r # ys
      \<and> nullRun (plugins b) xs st = Some st1
      \<and> ruleStep (plugins b) r st1 = (Threw e, st2)
     \<longrightarrow> tryBlock b rq st0 = (Threw e, st2))
   \<and> (fst (tryBlock b rq st0) = Threw e
     \<longrightarrow> (\<exists>st. enterRoute b rq st0 = FetchThrew e st)
       \<or> (\<exists>rt st xs r ys st1 st2. enterRoute b rq st0 = Entered rt st
             \<and> rules rt = xs @ r # ys \<and> nullRun (plugins b) xs st = Some st1
             \<and> ruleStep (plugins b) r st1 = (Threw e, st2)))
   \<and> ((\<forall>q\<in>set ps. \<forall>f s res. onError q = Some f \<longrightarrow> fst (f e s) \<noteq> Returned (Some res))
     \<longrightarrow> fst (handlePluginErrors ps e sx) = None)"
proof (intro conjI impI)
  assume a: "fst (tryBlock b rq ((initialContext b rq, w), [])) = Threw e
      \<and> fst (handlePluginErrors (plugins b) e
                (snd (tryBlock b rq ((initialContext b rq, w), [])))) = None"
  then have 1: "tryBlock b rq ((initialContext b rq, w), [])
             = (Threw e, snd (tryBlock b rq ((initialContext b rq, w), [])))"
    by (metis prod.collapse)
  from a have 2: "fst (handlePluginErrors (plugins b) e
                (snd (tryBlock b rq ((initialContext b rq, w), [])))) = None"
    by (rule conjunct2)
  show "fst (build b rq w)
           = (if isAuthPath (authPaths b) (pathname rq) then Next
              else Redirect ''/sign-in'' (url rq))"
    by (rule build_default_policy [OF 1 2])
next
  show "isAuthPath aps p
       = (\<exists>a\<in>set aps. p = a \<or> (endsWith a ''/*'' \<and> startsWith p (slice_end 2 a)))"
    by (rule isAuthPath_iff)
next
  assume "enterRoute b rq st0 = FetchThrew e st"
  then show "tryBlock b rq st0 = (Threw e, st)"
    by (rule tryBlock_fetch_throws)
next
  assume "enterRoute b rq st0 = Entered rt st
      \<and> rules rt = xs @ r # ys
      \<and> nullRun (plugins b) xs st = Some st1
      \<and> ruleStep (plugins b) r st1 = (Threw e, st2)"
  then show "tryBlock b rq st0 = (Threw e, st2)"
    using tryBlock_rule_throws [of b rq st0 rt st xs r ys st1 e st2] by blast
next
  assume "fst (tryBlock b rq st0) = Threw e"
  then show "(\<exists>st. enterRoute b rq st0 = FetchThrew e st)
       \<or> (\<exists>rt st xs r ys st1 st2. enterRoute b rq st0 = Entered rt st
             \<and> rules rt = xs @ r # ys \<and> nullRun (plugins b) xs st = Some st1
             \<and> ruleStep (plugins b) r st1 = (Threw e, st2))"
    by (rule tryBlock_threw)
next
  assume "\<forall>q\<in>set ps. \<forall>f s res. onError q = Some f \<longrightarrow> fst (f e s) \<noteq> Returned (Some res)"
  then show "fst (handlePluginErrors ps e sx) = None"
    by (rule handlePluginErrors_none)
qed

text \<open>
  The theorem on a builder with the auth path \<^verbatim>\<open>/api/*\<close>, a plugin whose \<^verbatim>\<open>onError\<close>
  returns nothing, and the prefix routes \<^verbatim>\<open>/api\<close> and \<^verbatim>\<open>/admin\<close> whose one rule throws:
  the request for \<^verbatim>\<open>/api/x\<close> passes through, the request for \<^verbatim>\<open>/admin/x\<close> is redirected
  to \<^verbatim>\<open>/sign-in\<close>. On a builder without plugins whose user fetch throws, the request for
  \<^verbatim>\<open>/account\<close>, no auth path, is redirected as well. The auth path test is a plain
  \<^verbatim>\<open>startsWith\<close>: \<^verbatim>\<open>/apix\<close> is an auth path under the entry \<^verbatim>\<open>/api/*\<close>.
\<close>

theorem default_error_policy_witness:
  "plugins failing_builder = [reporter_plugin]
   \<and> tryBlock failing_builder api_request
          ((initialContext failing_builder api_request, []), [])
       = (Threw ''boom'',
          ((initialContext failing_builder api_request)
              \<lparr>params := extractParams ''/api/x'' ''/api'' False (Some ''/api'')\<rparr>,
           [''boom'']), [])
   \<and> fst (handlePluginErrors (plugins failing_builder) ''boom''
            (snd (tryBlock failing_builder api_request
                    ((initialContext failing_builder api_request, []), [])))) = None
   \<and> isAuthPath (authPaths failing_builder) (pathname api_request)
   \<and> fst (build failing_builder api_request []) = Next
   \<and> fst (tryBlock failing_builder admin_request
          ((initialContext failing_builder admin_request, []), [])) = Threw ''boom''
   \<and> \<not> isAuthPath (authPaths failing_builder) (pathname admin_request)
   \<and> fst (build failing_builder admin_request [])
       = Redirect ''/sign-in'' ''http://localhost:3000/admin/x''
   \<and> plugins fetchless_builder = []
   \<and> fst (tryBlock fetchless_builder account_request
          ((initialContext fetchless_builder account_request, []), [])) = Threw ''no session''
   \<and> fst (build fetchless_builder account_request [])
       = Redirect ''/sign-in'' ''http://localhost:3000/account''
   \<and> isAuthPath [''/api/*''] ''/apix''
   \<and> \<not> isAuthPath [''/api/*''] ''/ap''"
proof -
  let ?b0 = "use reporter_plugin (new_MiddlewareBuilder journal_options)"
  let ?api = "prefix_route ''/api'' [rule_boom] ?b0"
  let ?adm = "prefix_route ''/admin'' [rule_boom] (prefix_reg ''/api'' [rule_boom] ?b0)"
  let ?st1 = "((initialContext failing_builder api_request, []), [])"
  let ?st2 = "((initialContext failing_builder admin_request, []), [])"
  let ?st3 = "((initialContext fetchless_builder account_request, []), [])"
  let ?c1 = "(initialContext failing_builder api_request)
              \<lparr>params := extractParams ''/api/x'' ''/api'' False (Some ''/api'')\<rparr>"
  let ?c2 = "(initialContext failing_builder admin_request)
              \<lparr>params := extractParams ''/admin/x'' ''/admin'' False (Some ''/admin'')\<rparr>"
  have pl: "plugins failing_builder = [reporter_plugin]" "plugins fetchless_builder = []"
    by (simp_all add: example_defs)
  have quiet: "\<forall>q\<in>set (plugins failing_builder).
                 \<forall>f s res. onError q = Some f \<longrightarrow> fst (f e s) \<noteq> Returned (Some res)" for e
    unfolding pl by (simp add: reporter_plugin_def)
  have quiet3: "\<forall>q\<in>set (plugins fetchless_builder).
                 \<forall>f s res. onError q = Some f \<longrightarrow> fst (f e s) \<noteq> Returned (Some res)" for e
    unfolding pl by simp
  \<comment> \<open>\<^verbatim>\<open>/api/x\<close>: a rule throws, the path is an auth path\<close>
  have e1: "enterRoute failing_builder api_request ?st1 = Entered ?api ((?c1, []), [])"
    by (simp add: example_defs engine_defs calculatePriority_def filterBoolean_def Let_def)
  have r1: "rules ?api = [] @ rule_boom # []"
    by (simp add: prefix_route_def)
  have n1: "nullRun (plugins failing_builder) [] ((?c1, []), []) = Some ((?c1, []), [])"
    by simp
  have s1: "ruleStep (plugins failing_builder) rule_boom ((?c1, []), [])
            = (Threw ''boom'', (?c1, [''boom'']), [])"
    by (simp add: pl rule_boom_def journal_def ruleStep_def reporter_plugin_def
          hook_beforeRule_def)
  note t1 = default_error_policy
              [where b = failing_builder and rq = api_request and w = "[]" and e = "''boom''"
                 and ?st0.0 = ?st1 and rt = ?api and st = "((?c1, []), [])"
                 and xs = "[]" and r = rule_boom and ys = "[]"
                 and ?st1.0 = "((?c1, []), [])" and ?st2.0 = "((?c1, [''boom'']), [])"
                 and ps = "plugins failing_builder"
                 and sx = "snd (tryBlock failing_builder api_request ?st1)"]
  have th1: "tryBlock failing_builder api_request ?st1
             = (Threw ''boom'', (?c1, [''boom'']), [])"
    by (rule mp [OF t1 [THEN conjunct2, THEN conjunct2, THEN conjunct2, THEN conjunct1]])
       (intro conjI e1 r1 n1 s1)
  have h1: "fst (handlePluginErrors (plugins failing_builder) ''boom''
                   (snd (tryBlock failing_builder api_request ?st1))) = None"
    by (rule mp [OF t1 [THEN conjunct2, THEN conjunct2, THEN conjunct2, THEN conjunct2,
                        THEN conjunct2] quiet])
  have th1': "fst (tryBlock failing_builder api_request ?st1) = Threw ''boom''"
    by (simp only: th1 fst_conv)
  have a1: "isAuthPath (authPaths failing_builder) (pathname api_request)"
    by (simp add: example_defs engine_defs)
  have b1: "fst (build failing_builder api_request []) = Next"
    using mp [OF t1 [THEN conjunct1] conjI [OF th1' h1]] a1 by simp
  \<comment> \<open>\<^verbatim>\<open>/admin/x\<close>: a rule throws, the path is no auth path\<close>
  have e2: "enterRoute failing_builder admin_request ?st2 = Entered ?adm ((?c2, []), [])"
    by (simp add: example_defs engine_defs calculatePriority_def filterBoolean_def Let_def)
  have r2: "rules ?adm = [] @ rule_boom # []"
    by (simp add: prefix_route_def)
  have n2: "nullRun (plugins failing_builder) [] ((?c2, []), []) = Some ((?c2, []), [])"
    by simp
  have s2: "ruleStep (plugins failing_builder) rule_boom ((?c2, []), [])
            = (Threw ''boom'', (?c2, [''boom'']), [])"
    by (simp add: pl rule_boom_def journal_def ruleStep_def reporter_plugin_def
          hook_beforeRule_def)
  note t2 = default_error_policy
              [where b = failing_builder and rq = admin_request and w = "[]" and e = "''boom''"
                 and ?st0.0 = ?st2 and rt = ?adm and st = "((?c2, []), [])"
                 and xs = "[]" and r = rule_boom and ys = "[]"
                 and ?st1.0 = "((?c2, []), [])" and ?st2.0 = "((?c2, [''boom'']), [])"
                 and ps = "plugins failing_builder"
                 and sx = "snd (tryBlock failing_builder admin_request ?st2)"]
  have th2: "tryBlock failing_builder admin_request ?st2
             = (Threw ''boom'', (?c2, [''boom'']), [])"
    by (rule mp [OF t2 [THEN conjunct2, THEN conjunct2, THEN conjunct2, THEN conjunct1]])
       (intro conjI e2 r2 n2 s2)
  have th2': "fst (tryBlock failing_builder admin_request ?st2) = Threw ''boom''"
    by (simp only: th2 fst_conv)
  have h2: "fst (handlePluginErrors (plugins failing_builder) ''boom''
                   (snd (tryBlock failing_builder admin_request ?st2))) = None"
    by (rule mp [OF t2 [THEN conjunct2, THEN conjunct2, THEN conjunct2, THEN conjunct2,
                        THEN conjunct2] quiet])
  have a2: "\<not> isAuthPath (authPaths failing_builder) (pathname admin_request)"
    by (simp add: example_defs engine_defs)
  have u2: "url admin_request = ''http://localhost:3000/admin/x''"
    by (simp add: admin_request_def)
  have b2: "fst (build failing_builder admin_request [])
            = Redirect ''/sign-in'' ''http://localhost:3000/admin/x''"
    using mp [OF t2 [THEN conjunct1] conjI [OF th2' h2]] a2 u2 by simp
  \<comment> \<open>\<^verbatim>\<open>/account\<close>: the user fetch throws\<close>
  have e3: "enterRoute fetchless_builder account_request ?st3
            = FetchThrew ''no session'' ?st3"
    by (simp add: example_defs engine_defs params_defs Let_def)
  note t3 = default_error_policy
              [where b = fetchless_builder and rq = account_request and w = "[]"
                 and e = "''no session''" and ?st0.0 = ?st3 and st = ?st3
                 and ps = "plugins fetchless_builder"
                 and sx = "snd (tryBlock fetchless_builder account_request ?st3)"]
  have th3: "tryBlock fetchless_builder account_request ?st3 = (Threw ''no session'', ?st3)"
    by (rule mp [OF t3 [THEN conjunct2, THEN conjunct2, THEN conjunct1] e3])
  have th3': "fst (tryBlock fetchless_builder account_request ?st3) = Threw ''no session''"
    by (simp only: th3 fst_conv)
  have h3: "fst (handlePluginErrors (plugins fetchless_builder) ''no session''
                   (snd (tryBlock fetchless_builder account_request ?st3))) = None"
    by (rule mp [OF t3 [THEN conjunct2, THEN conjunct2, THEN conjunct2, THEN conjunct2,
                        THEN conjunct2] quiet3])
  have a3: "\<not> isAuthPath (authPaths fetchless_builder) (pathname account_request)"
    by (simp add: example_defs engine_defs)
  have u3: "url account_request = ''http://localhost:3000/account''"
    by (simp add: account_request_def)
  have b3: "fst (build fetchless_builder account_request [])
            = Redirect ''/sign-in'' ''http://localhost:3000/account''"
    using mp [OF t3 [THEN conjunct1] conjI [OF th3' h3]] a3 u3 by simp
  have x: "isAuthPath [''/api/*''] ''/apix''" "\<not> isAuthPath [''/api/*''] ''/ap''"
    by (simp_all add: engine_defs)
  from pl th1 h1 a1 b1 th2' a2 b2 th3' b3 x show ?thesis by blast
qed


section \<open>Plugin hooks are isolated\<close>

text \<open>
  Claim C6. An exception thrown by a hook other than \<^verbatim>\<open>onError\<close> changes nothing but
  the console: for every builder, request and starting state, the handler's response and
  the final context and state are those of the builder whose plugins have every such hook
  replaced by one that does the same to the state and returns normally. So a hook that
  throws aborts nothing, and route resolution, the rules, the other plugins and the
  \<^verbatim>\<open>afterRequest\<close> hooks run as they would have. In \<open>executePluginHook\<close>, when a plugin's
  hook throws, the plugin's name, the hook's name and the error go to the console and the
  remaining plugins run on from the state the hook left.
\<close>

theorem plugin_hook_isolation:
  "observable (build (b\<lparr>plugins := map swallowed (plugins b)\<rparr>) rq w)
     = observable (build b rq w)
   \<and> (sel p = Some h \<and> h s = (Threw e, s')
     \<longrightarrow> executePluginHook hk sel (p # rest) (s, out)
         = executePluginHook hk sel rest (s', out @ [(name p, hk, e)]))"
proof (intro conjI impI)
  show "observable (build (b\<lparr>plugins := map swallowed (plugins b)\<rparr>) rq w)
     = observable (build b rq w)"
    by (rule build_swallowed)
next
  assume "sel p = Some h \<and> h s = (Threw e, s')"
  then show "executePluginHook hk sel (p # rest) (s, out)
         = executePluginHook hk sel rest (s', out @ [(name p, hk, e)])"
    by simp
qed

text \<open>
  The theorem on a builder with a plugin whose \<^verbatim>\<open>beforeRequest\<close> throws, a second plugin
  that journals \<^verbatim>\<open>beforeRequest\<close> and \<^verbatim>\<open>afterRequest\<close>, and the exact route
  \<^verbatim>\<open>/account\<close> with the rules R1 (null) and R2 (a 403 response). The failure is on the
  console, the second plugin's hooks and both rules have run, and the response is R2's.
\<close>

theorem plugin_hook_isolation_witness:
  "hook_beforeRequest faulty_plugin = Some faulty_hook
   \<and> faulty_hook (initialContext plugin_builder account_request, [])
       = (Threw ''hook failed'',
          (initialContext plugin_builder account_request, [''faulty.beforeRequest'']))
   \<and> executePluginHook ''beforeRequest'' hook_beforeRequest [faulty_plugin, audit_plugin]
         ((initialContext plugin_builder account_request, []), [])
       = executePluginHook ''beforeRequest'' hook_beforeRequest [audit_plugin]
           ((initialContext plugin_builder account_request, [''faulty.beforeRequest'']),
            [] @ [(name faulty_plugin, ''beforeRequest'', ''hook failed'')])
   \<and> plugins plugin_builder = [faulty_plugin, audit_plugin]
   \<and> fst (build plugin_builder account_request []) = Json ''denied'' 403
   \<and> snd (fst (snd (build plugin_builder account_request [])))
       = [''faulty.beforeRequest'', ''audit.beforeRequest'', ''R1'', ''R2'',
          ''audit.afterRequest'']
   \<and> snd (snd (build plugin_builder account_request []))
       = [(''faulty'', ''beforeRequest'', ''hook failed'')]
   \<and> observable (build (plugin_builder\<lparr>plugins := map swallowed (plugins plugin_builder)\<rparr>)
                     account_request [])
       = observable (build plugin_builder account_request [])"
proof -
  note t = plugin_hook_isolation
             [of plugin_builder account_request "[]" hook_beforeRequest faulty_plugin
                 faulty_hook "(initialContext plugin_builder account_request, [])"
                 "''hook failed''"
                 "(initialContext plugin_builder account_request, [''faulty.beforeRequest''])"
                 "''beforeRequest''" "[audit_plugin]" "[]"]
  have h1: "hook_beforeRequest faulty_plugin = Some faulty_hook"
    by (simp add: hook_beforeRequest_def faulty_plugin_def)
  have h2: "faulty_hook (initialContext plugin_builder account_request, [])
       = (Threw ''hook failed'',
          (initialContext plugin_builder account_request, [''faulty.beforeRequest'']))"
    by (simp add: faulty_hook_def journal_def)
  note c1 = mp [OF t [THEN conjunct2] conjI [OF h1 h2]]
  note c2 = t [THEN conjunct1]
  have pl: "plugins plugin_builder = [faulty_plugin, audit_plugin]"
    by (simp add: plugin_builder_def exact_def use_def new_MiddlewareBuilder_def
        journal_options_def)
  have r: "fst (build plugin_builder account_request []) = Json ''denied'' 403"
    by (simp add: example_defs engine_defs Let_def)
  have j: "snd (fst (snd (build plugin_builder account_request [])))
       = [''faulty.beforeRequest'', ''audit.beforeRequest'', ''R1'', ''R2'',
          ''audit.afterRequest'']"
    by (simp add: example_defs engine_defs Let_def)
  have c: "snd (snd (build plugin_builder account_request []))
       = [(''faulty'', ''beforeRequest'', ''hook failed'')]"
    by (simp add: example_defs engine_defs Let_def)
  from h1 h2 c1 c2 pl r j c show ?thesis by blast
qed



section \<open>Facts about the legacy matcher\<close>


















section \<open>The order of the legacy matcher's paths\<close>





section \<open>Redirects in the legacy rule loop\<close>




end
